theory Spec2Isabelle
  imports Main
begin

section \<open>The client's classes\<close>

text \<open>
  \<^verbatim>\<open>indirect<T>\<close> is a template: the classes it stores and views belong to the client.
  They enter the model as a class environment. An object is the sequence of words of its
  representation; a class is known by its name.
\<close>

type_synonym cname = string
type_synonym object = "int list"

datatype error =
    bad_indirect_cast
  | thrown nat
  | undefined_behaviour
  | ill_formed

text \<open>
  \<open>thrown n\<close> is an exception of the client's constructors, \<open>undefined_behaviour\<close> a null
  or dangling access, \<open>ill_formed\<close> a call that no overload accepts (a failed
  \<^verbatim>\<open>enable_if\<close>, an invalid \<^verbatim>\<open>static_cast\<close>, a missing constructor).

  \<open>is_base_of E T U\<close> is \<^verbatim>\<open>std::is_base_of<T, U>::value\<close>; \<open>offset_of E D B\<close> is the
  word offset of the \<open>B\<close> subobject inside a complete object of class \<open>D\<close>;
  \<open>ctor E C args\<close> is \<open>None\<close> when \<open>C\<close> has no constructor for \<open>args\<close>;
  \<open>move_ctor E C v\<close> returns the outcome together with what is left in the source.
\<close>

record class_env =
  is_base_of :: "cname \<Rightarrow> cname \<Rightarrow> bool"
  offset_of :: "cname \<Rightarrow> cname \<Rightarrow> nat"
  ctor :: "cname \<Rightarrow> int list \<Rightarrow> (error + object) option"
  copy_ctor :: "cname \<Rightarrow> object \<Rightarrow> error + object"
  move_ctor :: "cname \<Rightarrow> object \<Rightarrow> (error + object) \<times> object"

section \<open>Memory\<close>

text \<open>
  Control blocks live on the heap. The address of a block is a positive number, \<open>0\<close> is
  no address; a \<^verbatim>\<open>std::unique_ptr<control_block>\<close> is an \<open>addr option\<close>. A typed pointer
  \<^verbatim>\<open>T*\<close> is null or names a block and a word offset into the value stored there.
\<close>

type_synonym addr = nat

datatype pointer = nullptr | Ptr addr nat

text \<open>
  \<^verbatim>\<open>direct_control_block<U>\<close>: \<open>conc\<close> is the \<^verbatim>\<open>U\<close> of the instantiation (what the
  virtual table of the block selects), \<open>t\<close> the stored member.
\<close>

record control_block =
  conc :: cname
  t :: object

type_synonym heap = "control_block option list"

definition block_at :: "heap \<Rightarrow> addr \<Rightarrow> control_block option" where
  "block_at h a = (if a = 0 \<or> length h < a then None else h ! (a - 1))"

text \<open>
  \<^verbatim>\<open>std::make_unique\<close>: the new block gets an address that no block has had, so it
  differs from the address of every block allocated at that moment. Memory does not run
  out.
\<close>

definition make_unique :: "control_block \<Rightarrow> heap \<Rightarrow> addr \<times> heap" where
  "make_unique b h = (Suc (length h), h @ [Some b])"

definition store_block :: "addr \<Rightarrow> control_block \<Rightarrow> heap \<Rightarrow> heap" where
  "store_block a b h = (if block_at h a = None then h else h[a - 1 := Some b])"

definition delete_block :: "addr \<Rightarrow> heap \<Rightarrow> heap" where
  "delete_block a h = (if block_at h a = None then h else h[a - 1 := None])"

text \<open>Releasing what a \<^verbatim>\<open>unique_ptr\<close> owns (its destructor, and the old value on assignment).\<close>

definition unique_ptr_reset :: "addr option \<Rightarrow> heap \<Rightarrow> heap" where
  "unique_ptr_reset p h = (case p of None \<Rightarrow> h | Some a \<Rightarrow> delete_block a h)"

section \<open>detail::direct_control_block\<close>

text \<open>\<^verbatim>\<open>std::make_unique<dcb_t<U>>(ts...)\<close>: construct a \<^verbatim>\<open>U\<close> from arguments in a new block.\<close>

definition make_dcb :: "class_env \<Rightarrow> cname \<Rightarrow> int list \<Rightarrow> heap \<Rightarrow> (error + addr option) \<times> heap" where
  "make_dcb E U args h =
     (case ctor E U args of
        None \<Rightarrow> (Inl ill_formed, h)
      | Some (Inl e) \<Rightarrow> (Inl e, h)
      | Some (Inr v) \<Rightarrow>
          (case make_unique \<lparr>conc = U, t = v\<rparr> h of (a, h') \<Rightarrow> (Inr (Some a), h')))"

text \<open>
  \<^verbatim>\<open>std::make_unique<dcb_t<U>>(std::forward<U>(other))\<close>: from an lvalue the stored value
  is copy constructed, from an rvalue it is move constructed.
\<close>

datatype value_category = lvalue | rvalue

definition make_dcb_from :: "class_env \<Rightarrow> cname \<Rightarrow> value_category \<Rightarrow> object \<Rightarrow> heap
    \<Rightarrow> (error + addr option) \<times> heap" where
  "make_dcb_from E U c v h =
     (case (case c of lvalue \<Rightarrow> copy_ctor E U v | rvalue \<Rightarrow> fst (move_ctor E U v)) of
        Inl e \<Rightarrow> (Inl e, h)
      | Inr v' \<Rightarrow>
          (case make_unique \<lparr>conc = U, t = v'\<rparr> h of (a, h') \<Rightarrow> (Inr (Some a), h')))"

text \<open>\<^verbatim>\<open>copy()\<close>, called through a \<^verbatim>\<open>unique_ptr\<close>: the block's own class is copy constructed.\<close>

definition dcb_copy :: "class_env \<Rightarrow> addr option \<Rightarrow> heap \<Rightarrow> (error + addr option) \<times> heap" where
  "dcb_copy E p h =
     (case p of
        None \<Rightarrow> (Inl undefined_behaviour, h)
      | Some a \<Rightarrow>
          (case block_at h a of
             None \<Rightarrow> (Inl undefined_behaviour, h)
           | Some b \<Rightarrow>
               (case copy_ctor E (conc b) (t b) of
                  Inl e \<Rightarrow> (Inl e, h)
                | Inr v \<Rightarrow>
                    (case make_unique \<lparr>conc = conc b, t = v\<rparr> h of
                       (a', h') \<Rightarrow> (Inr (Some a'), h')))))"

text \<open>
  \<^verbatim>\<open>move()\<close>: a new block is made from \<^verbatim>\<open>std::move(t)\<close>; the block it is called on stays
  where it is and keeps what the move constructor left in \<^verbatim>\<open>t\<close>.
\<close>

definition dcb_move :: "class_env \<Rightarrow> addr option \<Rightarrow> heap \<Rightarrow> (error + addr option) \<times> heap" where
  "dcb_move E p h =
     (case p of
        None \<Rightarrow> (Inl undefined_behaviour, h)
      | Some a \<Rightarrow>
          (case block_at h a of
             None \<Rightarrow> (Inl undefined_behaviour, h)
           | Some b \<Rightarrow>
               (case move_ctor E (conc b) (t b) of
                  (Inl e, r) \<Rightarrow> (Inl e, store_block a (b\<lparr>t := r\<rparr>) h)
                | (Inr v, r) \<Rightarrow>
                    (case make_unique \<lparr>conc = conc b, t = v\<rparr> (store_block a (b\<lparr>t := r\<rparr>) h) of
                       (a', h') \<Rightarrow> (Inr (Some a'), h')))))"

text \<open>\<^verbatim>\<open>ptr()\<close> returns \<^verbatim>\<open>&t\<close> as a \<^verbatim>\<open>void*\<close>: the start of the stored value.\<close>

definition dcb_ptr :: "addr option \<Rightarrow> heap \<Rightarrow> error + pointer" where
  "dcb_ptr p h =
     (case p of
        None \<Rightarrow> Inl undefined_behaviour
      | Some a \<Rightarrow>
          (case block_at h a of
             None \<Rightarrow> Inl undefined_behaviour
           | Some b \<Rightarrow> Inr (Ptr a 0)))"

section \<open>indirect\<close>

text \<open>
  \<^verbatim>\<open>static_cast<T*>(p)\<close> for a \<^verbatim>\<open>void*\<close> that points to the stored object: no class is
  known at the cast but \<^verbatim>\<open>T\<close>, so no offset is applied and the pointer value stays as it
  is, whatever \<^verbatim>\<open>T\<close> is.
\<close>

definition static_cast_void :: "cname \<Rightarrow> pointer \<Rightarrow> pointer" where
  "static_cast_void T p = p"

record data =
  ptr :: pointer
  cb :: "addr option"

definition data_ctor :: "cname \<Rightarrow> addr option \<Rightarrow> heap \<Rightarrow> error + data" where
  "data_ctor T cb' h =
     (case dcb_ptr cb' h of
        Inl e \<Rightarrow> Inl e
      | Inr p \<Rightarrow> Inr \<lparr>ptr = static_cast_void T p, cb = cb'\<rparr>)"

text \<open>
  \<^verbatim>\<open>data::operator=\<close>: the pointer is taken from the new block first, then the
  \<^verbatim>\<open>unique_ptr\<close> is move assigned, which deletes the block owned so far.
\<close>

definition data_assign :: "cname \<Rightarrow> data \<Rightarrow> addr option \<Rightarrow> heap \<Rightarrow> (error + data) \<times> heap" where
  "data_assign T d cb' h =
     (case dcb_ptr cb' h of
        Inl e \<Rightarrow> (Inl e, h)
      | Inr p \<Rightarrow> (Inr \<lparr>ptr = static_cast_void T p, cb = cb'\<rparr>, unique_ptr_reset (cb d) h))"

text \<open>
  An \<^verbatim>\<open>indirect<T>\<close> object: \<open>view\<close> is its template argument, \<open>m\<close> its only member. The
  client's wrapper objects are kept by storage location, so that an operation can be given
  the same object twice.
\<close>

record indirect =
  view :: cname
  m :: data

type_synonym ref = nat

record state =
  vars :: "ref \<Rightarrow> indirect option"
  heap :: heap

text \<open>
  The member initialiser \<^verbatim>\<open>m(e)\<close> of a constructor of \<^verbatim>\<open>indirect<T>\<close> running at \<open>this\<close>,
  and the assignment \<^verbatim>\<open>m = e\<close> of an assignment operator; \<open>r\<close> is the outcome of \<^verbatim>\<open>e\<close>.
\<close>

definition init_m :: "cname \<Rightarrow> ref \<Rightarrow> (error + addr option) \<times> heap \<Rightarrow> state
    \<Rightarrow> (error + unit) \<times> state" where
  "init_m T this r s =
     (case r of
        (Inl e, h) \<Rightarrow> (Inl e, s\<lparr>heap := h\<rparr>)
      | (Inr cb', h) \<Rightarrow>
          (case data_ctor T cb' h of
             Inl e \<Rightarrow> (Inl e, s\<lparr>heap := h\<rparr>)
           | Inr d \<Rightarrow> (Inr (), \<lparr>vars = (vars s)(this \<mapsto> \<lparr>view = T, m = d\<rparr>), heap = h\<rparr>)))"

definition assign_m :: "ref \<Rightarrow> (error + addr option) \<times> heap \<Rightarrow> state \<Rightarrow> (error + unit) \<times> state" where
  "assign_m this r s =
     (case r of
        (Inl e, h) \<Rightarrow> (Inl e, s\<lparr>heap := h\<rparr>)
      | (Inr cb', h) \<Rightarrow>
          (case vars s this of
             None \<Rightarrow> (Inl undefined_behaviour, s\<lparr>heap := h\<rparr>)
           | Some w \<Rightarrow>
               (case data_assign (view w) (m w) cb' h of
                  (Inl e, h') \<Rightarrow> (Inl e, s\<lparr>heap := h'\<rparr>)
                | (Inr d, h') \<Rightarrow> (Inr (), \<lparr>vars = (vars s)(this \<mapsto> w\<lparr>m := d\<rparr>), heap = h'\<rparr>))))"

subsection \<open>Constructors\<close>

definition indirect_default :: "class_env \<Rightarrow> cname \<Rightarrow> ref \<Rightarrow> state \<Rightarrow> (error + unit) \<times> state" where
  "indirect_default E T this s = init_m T this (make_dcb E T [] (heap s)) s"

definition indirect_in_place :: "class_env \<Rightarrow> cname \<Rightarrow> ref \<Rightarrow> int list \<Rightarrow> state
    \<Rightarrow> (error + unit) \<times> state" where
  "indirect_in_place E T this args s = init_m T this (make_dcb E T args (heap s)) s"

definition indirect_copy :: "class_env \<Rightarrow> cname \<Rightarrow> ref \<Rightarrow> ref \<Rightarrow> state \<Rightarrow> (error + unit) \<times> state" where
  "indirect_copy E T this other s =
     (case vars s other of
        None \<Rightarrow> (Inl undefined_behaviour, s)
      | Some w \<Rightarrow>
          if view w \<noteq> T then (Inl ill_formed, s)
          else init_m T this (dcb_copy E (cb (m w)) (heap s)) s)"

definition indirect_move :: "class_env \<Rightarrow> cname \<Rightarrow> ref \<Rightarrow> ref \<Rightarrow> state \<Rightarrow> (error + unit) \<times> state" where
  "indirect_move E T this other s =
     (case vars s other of
        None \<Rightarrow> (Inl undefined_behaviour, s)
      | Some w \<Rightarrow>
          if view w \<noteq> T then (Inl ill_formed, s)
          else init_m T this (dcb_move E (cb (m w)) (heap s)) s)"

text \<open>From an \<^verbatim>\<open>indirect<U>\<close>, under \<^verbatim>\<open>enable_if_t<is_base_of<T, U>::value>\<close>.\<close>

definition indirect_conv_copy :: "class_env \<Rightarrow> cname \<Rightarrow> ref \<Rightarrow> ref \<Rightarrow> state
    \<Rightarrow> (error + unit) \<times> state" where
  "indirect_conv_copy E T this other s =
     (case vars s other of
        None \<Rightarrow> (Inl undefined_behaviour, s)
      | Some w \<Rightarrow>
          if \<not> is_base_of E T (view w) then (Inl ill_formed, s)
          else init_m T this (dcb_copy E (cb (m w)) (heap s)) s)"

definition indirect_conv_move :: "class_env \<Rightarrow> cname \<Rightarrow> ref \<Rightarrow> ref \<Rightarrow> state
    \<Rightarrow> (error + unit) \<times> state" where
  "indirect_conv_move E T this other s =
     (case vars s other of
        None \<Rightarrow> (Inl undefined_behaviour, s)
      | Some w \<Rightarrow>
          if \<not> is_base_of E T (view w) then (Inl ill_formed, s)
          else init_m T this (dcb_move E (cb (m w)) (heap s)) s)"

text \<open>
  From a value of class \<^verbatim>\<open>U\<close> (the argument's class, without reference and qualifiers,
  as \<^verbatim>\<open>dcb_t\<close> takes it), under the same constraint.
\<close>

definition indirect_from_value :: "class_env \<Rightarrow> cname \<Rightarrow> ref \<Rightarrow> cname \<Rightarrow> value_category \<Rightarrow> object
    \<Rightarrow> state \<Rightarrow> (error + unit) \<times> state" where
  "indirect_from_value E T this U c v s =
     (if \<not> is_base_of E T U then (Inl ill_formed, s)
      else init_m T this (make_dcb_from E U c v (heap s)) s)"

text \<open>The private constructor from a \<^verbatim>\<open>unique_ptr\<close>, used by the casts.\<close>

definition indirect_from_cb :: "cname \<Rightarrow> ref \<Rightarrow> (error + addr option) \<times> heap \<Rightarrow> state
    \<Rightarrow> (error + unit) \<times> state" where
  "indirect_from_cb T this r s = init_m T this r s"

text \<open>The implicit destructor: the member \<^verbatim>\<open>cb\<close> deletes its block.\<close>

definition indirect_dtor :: "ref \<Rightarrow> state \<Rightarrow> (error + unit) \<times> state" where
  "indirect_dtor this s =
     (case vars s this of
        None \<Rightarrow> (Inl undefined_behaviour, s)
      | Some w \<Rightarrow>
          (Inr (), \<lparr>vars = (vars s)(this := None), heap = unique_ptr_reset (cb (m w)) (heap s)\<rparr>))"

subsection \<open>Assignment\<close>

definition copy_assign :: "class_env \<Rightarrow> ref \<Rightarrow> ref \<Rightarrow> state \<Rightarrow> (error + unit) \<times> state" where
  "copy_assign E this other s =
     (case (vars s this, vars s other) of
        (Some w, Some w') \<Rightarrow>
          if view w' \<noteq> view w then (Inl ill_formed, s)
          else assign_m this (dcb_copy E (cb (m w')) (heap s)) s
      | _ \<Rightarrow> (Inl undefined_behaviour, s))"

definition move_assign :: "class_env \<Rightarrow> ref \<Rightarrow> ref \<Rightarrow> state \<Rightarrow> (error + unit) \<times> state" where
  "move_assign E this other s =
     (case (vars s this, vars s other) of
        (Some w, Some w') \<Rightarrow>
          if view w' \<noteq> view w then (Inl ill_formed, s)
          else assign_m this (dcb_move E (cb (m w')) (heap s)) s
      | _ \<Rightarrow> (Inl undefined_behaviour, s))"

definition conv_copy_assign :: "class_env \<Rightarrow> ref \<Rightarrow> ref \<Rightarrow> state \<Rightarrow> (error + unit) \<times> state" where
  "conv_copy_assign E this other s =
     (case (vars s this, vars s other) of
        (Some w, Some w') \<Rightarrow>
          if \<not> is_base_of E (view w) (view w') then (Inl ill_formed, s)
          else assign_m this (dcb_copy E (cb (m w')) (heap s)) s
      | _ \<Rightarrow> (Inl undefined_behaviour, s))"

definition conv_move_assign :: "class_env \<Rightarrow> ref \<Rightarrow> ref \<Rightarrow> state \<Rightarrow> (error + unit) \<times> state" where
  "conv_move_assign E this other s =
     (case (vars s this, vars s other) of
        (Some w, Some w') \<Rightarrow>
          if \<not> is_base_of E (view w) (view w') then (Inl ill_formed, s)
          else assign_m this (dcb_move E (cb (m w')) (heap s)) s
      | _ \<Rightarrow> (Inl undefined_behaviour, s))"

definition assign_from_value :: "class_env \<Rightarrow> ref \<Rightarrow> cname \<Rightarrow> value_category \<Rightarrow> object \<Rightarrow> state
    \<Rightarrow> (error + unit) \<times> state" where
  "assign_from_value E this U c v s =
     (case vars s this of
        None \<Rightarrow> (Inl undefined_behaviour, s)
      | Some w \<Rightarrow>
          if \<not> is_base_of E (view w) U then (Inl ill_formed, s)
          else assign_m this (make_dcb_from E U c v (heap s)) s)"

subsection \<open>swap\<close>

text \<open>
  Two exchanges, one after the other, each reading the objects as they are then: first the
  \<open>ptr\<close> members, then the \<open>cb\<close> members.
\<close>

definition swap_ptr :: "ref \<Rightarrow> ref \<Rightarrow> (ref \<Rightarrow> indirect option) \<Rightarrow> (ref \<Rightarrow> indirect option)" where
  "swap_ptr x y V =
     (case (V x, V y) of
        (Some w, Some w') \<Rightarrow>
          (let V1 = V(x \<mapsto> w\<lparr>m := (m w)\<lparr>ptr := ptr (m w')\<rparr>\<rparr>)
           in (case V1 y of
                 None \<Rightarrow> V1
               | Some w2 \<Rightarrow> V1(y \<mapsto> w2\<lparr>m := (m w2)\<lparr>ptr := ptr (m w)\<rparr>\<rparr>)))
      | _ \<Rightarrow> V)"

definition swap_cb :: "ref \<Rightarrow> ref \<Rightarrow> (ref \<Rightarrow> indirect option) \<Rightarrow> (ref \<Rightarrow> indirect option)" where
  "swap_cb x y V =
     (case (V x, V y) of
        (Some w, Some w') \<Rightarrow>
          (let V1 = V(x \<mapsto> w\<lparr>m := (m w)\<lparr>cb := cb (m w')\<rparr>\<rparr>)
           in (case V1 y of
                 None \<Rightarrow> V1
               | Some w2 \<Rightarrow> V1(y \<mapsto> w2\<lparr>m := (m w2)\<lparr>cb := cb (m w)\<rparr>\<rparr>)))
      | _ \<Rightarrow> V)"

definition indirect_swap :: "ref \<Rightarrow> ref \<Rightarrow> state \<Rightarrow> (error + unit) \<times> state" where
  "indirect_swap this other s =
     (case (vars s this, vars s other) of
        (Some w, Some w') \<Rightarrow>
          if view w' \<noteq> view w then (Inl ill_formed, s)
          else (Inr (), s\<lparr>vars := swap_cb this other (swap_ptr this other (vars s))\<rparr>)
      | _ \<Rightarrow> (Inl undefined_behaviour, s))"

text \<open>The free function \<^verbatim>\<open>swap(i1, i2)\<close>.\<close>

definition swap_free :: "ref \<Rightarrow> ref \<Rightarrow> state \<Rightarrow> (error + unit) \<times> state" where
  "swap_free i1 i2 s = indirect_swap i1 i2 s"

subsection \<open>Access\<close>

text \<open>\<^verbatim>\<open>operator->\<close> returns \<^verbatim>\<open>m.ptr\<close>; \<^verbatim>\<open>operator*\<close> dereferences it.\<close>

definition arrow :: "ref \<Rightarrow> state \<Rightarrow> error + pointer" where
  "arrow this s =
     (case vars s this of
        None \<Rightarrow> Inl undefined_behaviour
      | Some w \<Rightarrow> Inr (ptr (m w)))"

definition deref :: "ref \<Rightarrow> state \<Rightarrow> error + control_block" where
  "deref this s =
     (case vars s this of
        None \<Rightarrow> Inl undefined_behaviour
      | Some w \<Rightarrow>
          (case ptr (m w) of
             nullptr \<Rightarrow> Inl undefined_behaviour
           | Ptr a d \<Rightarrow>
               (case block_at (heap s) a of
                  None \<Rightarrow> Inl undefined_behaviour
                | Some b \<Rightarrow> Inr b)))"

text \<open>
  What the client does with the pointer it gets: reading and writing the word at offset
  \<open>k\<close> from it (a data member of the view class, or a member function that reads or
  sets one).
\<close>

definition load :: "heap \<Rightarrow> pointer \<Rightarrow> nat \<Rightarrow> error + int" where
  "load h p k =
     (case p of
        nullptr \<Rightarrow> Inl undefined_behaviour
      | Ptr a d \<Rightarrow>
          (case block_at h a of
             None \<Rightarrow> Inl undefined_behaviour
           | Some b \<Rightarrow>
               if d + k < length (t b) then Inr (t b ! (d + k)) else Inl undefined_behaviour))"

definition store :: "heap \<Rightarrow> pointer \<Rightarrow> nat \<Rightarrow> int \<Rightarrow> error + heap" where
  "store h p k x =
     (case p of
        nullptr \<Rightarrow> Inl undefined_behaviour
      | Ptr a d \<Rightarrow>
          (case block_at h a of
             None \<Rightarrow> Inl undefined_behaviour
           | Some b \<Rightarrow>
               if d + k < length (t b) then Inr (store_block a (b\<lparr>t := (t b)[d + k := x]\<rparr>) h)
               else Inl undefined_behaviour))"

definition get_member :: "ref \<Rightarrow> nat \<Rightarrow> state \<Rightarrow> error + int" where
  "get_member this k s =
     (case arrow this s of
        Inl e \<Rightarrow> Inl e
      | Inr p \<Rightarrow> load (heap s) p k)"

definition set_member :: "ref \<Rightarrow> nat \<Rightarrow> int \<Rightarrow> state \<Rightarrow> (error + unit) \<times> state" where
  "set_member this k x s =
     (case arrow this s of
        Inl e \<Rightarrow> (Inl e, s)
      | Inr p \<Rightarrow>
          (case store (heap s) p k x of
             Inl e \<Rightarrow> (Inl e, s)
           | Inr h \<Rightarrow> (Inr (), s\<lparr>heap := h\<rparr>)))"

subsection \<open>Casts\<close>

text \<open>
  \<^verbatim>\<open>try_static_cast<U>\<close> only has to compile: \<^verbatim>\<open>static_cast<U*>(T*)\<close> is accepted between
  a class and its bases, in both directions.
\<close>

definition try_static_cast :: "class_env \<Rightarrow> cname \<Rightarrow> indirect \<Rightarrow> error + unit" where
  "try_static_cast E U w =
     (if U = view w \<or> is_base_of E U (view w) \<or> is_base_of E (view w) U then Inr ()
      else Inl ill_formed)"

text \<open>
  The pointer at offset \<open>d\<close> of the object in block \<open>b\<close> is at a \<^verbatim>\<open>T\<close> subobject of it:
  the object itself, or one of its bases at the offset of that base.
\<close>

definition at_subobject :: "class_env \<Rightarrow> cname \<Rightarrow> control_block \<Rightarrow> nat \<Rightarrow> bool" where
  "at_subobject E T b d \<longleftrightarrow>
     (T = conc b \<and> d = 0) \<or> (is_base_of E T (conc b) \<and> d = offset_of E (conc b) T)"

text \<open>
  \<^verbatim>\<open>dynamic_cast<U*>(p)\<close> for a \<open>p\<close> of type \<^verbatim>\<open>T*\<close>. A null pointer gives null. When
  \<^verbatim>\<open>U\<close> is \<^verbatim>\<open>T\<close> or a base of \<^verbatim>\<open>T\<close> the cast is a static conversion: nothing is looked
  up at run time and the result is never null. Otherwise the class of the complete object
  decides: the result points to its \<^verbatim>\<open>U\<close> subobject when it has one and \<open>p\<close> is at a
  \<^verbatim>\<open>T\<close> subobject of it, and is null when not.
\<close>

definition dynamic_cast :: "class_env \<Rightarrow> cname \<Rightarrow> cname \<Rightarrow> pointer \<Rightarrow> heap \<Rightarrow> error + pointer" where
  "dynamic_cast E U T p h =
     (case p of
        nullptr \<Rightarrow> Inr nullptr
      | Ptr a d \<Rightarrow>
          if U = T then Inr (Ptr a d)
          else if is_base_of E U T then Inr (Ptr a (d + offset_of E T U))
          else
            (case block_at h a of
               None \<Rightarrow> Inl undefined_behaviour
             | Some b \<Rightarrow>
                 if at_subobject E T b d then
                   (if U = conc b then Inr (Ptr a 0)
                    else if is_base_of E U (conc b) then Inr (Ptr a (offset_of E (conc b) U))
                    else Inr nullptr)
                 else Inr nullptr))"

text \<open>
  \<^verbatim>\<open>try_dynamic_cast<U>\<close> of an \<^verbatim>\<open>indirect<T>\<close>: \<^verbatim>\<open>m.ptr\<close> is a \<^verbatim>\<open>T*\<close>, with \<^verbatim>\<open>T\<close> the view
  of the wrapper.
\<close>

definition try_dynamic_cast :: "class_env \<Rightarrow> cname \<Rightarrow> indirect \<Rightarrow> heap \<Rightarrow> error + unit" where
  "try_dynamic_cast E U w h =
     (case dynamic_cast E U (view w) (ptr (m w)) h of
        Inl e \<Rightarrow> Inl e
      | Inr p \<Rightarrow> if p = nullptr then Inl bad_indirect_cast else Inr ())"

definition make_indirect :: "class_env \<Rightarrow> cname \<Rightarrow> ref \<Rightarrow> int list \<Rightarrow> state \<Rightarrow> (error + unit) \<times> state" where
  "make_indirect E T result args s = indirect_in_place E T result args s"

text \<open>The casts return their \<^verbatim>\<open>indirect<T>\<close> by value; it is constructed at \<open>result\<close>.\<close>

definition static_indirect_cast_copy :: "class_env \<Rightarrow> cname \<Rightarrow> ref \<Rightarrow> ref \<Rightarrow> state
    \<Rightarrow> (error + unit) \<times> state" where
  "static_indirect_cast_copy E T result i s =
     (case vars s i of
        None \<Rightarrow> (Inl undefined_behaviour, s)
      | Some w \<Rightarrow>
          (case try_static_cast E T w of
             Inl e \<Rightarrow> (Inl e, s)
           | Inr _ \<Rightarrow> indirect_from_cb T result (dcb_copy E (cb (m w)) (heap s)) s))"

definition static_indirect_cast_move :: "class_env \<Rightarrow> cname \<Rightarrow> ref \<Rightarrow> ref \<Rightarrow> state
    \<Rightarrow> (error + unit) \<times> state" where
  "static_indirect_cast_move E T result i s =
     (case vars s i of
        None \<Rightarrow> (Inl undefined_behaviour, s)
      | Some w \<Rightarrow>
          (case try_static_cast E T w of
             Inl e \<Rightarrow> (Inl e, s)
           | Inr _ \<Rightarrow> indirect_from_cb T result (dcb_move E (cb (m w)) (heap s)) s))"

text \<open>
  The checked casts. Whether the call compiles is settled before anything runs, so the
  check of \<^verbatim>\<open>try_static_cast\<close> comes first; at run time \<^verbatim>\<open>try_dynamic_cast\<close> runs before
  the static cast copies or moves.
\<close>

definition dynamic_indirect_cast_copy :: "class_env \<Rightarrow> cname \<Rightarrow> ref \<Rightarrow> ref \<Rightarrow> state
    \<Rightarrow> (error + unit) \<times> state" where
  "dynamic_indirect_cast_copy E T result i s =
     (case vars s i of
        None \<Rightarrow> (Inl undefined_behaviour, s)
      | Some w \<Rightarrow>
          (case try_static_cast E T w of
             Inl e \<Rightarrow> (Inl e, s)
           | Inr _ \<Rightarrow>
               (case try_dynamic_cast E T w (heap s) of
                  Inl e \<Rightarrow> (Inl e, s)
                | Inr _ \<Rightarrow> static_indirect_cast_copy E T result i s)))"

definition dynamic_indirect_cast_move :: "class_env \<Rightarrow> cname \<Rightarrow> ref \<Rightarrow> ref \<Rightarrow> state
    \<Rightarrow> (error + unit) \<times> state" where
  "dynamic_indirect_cast_move E T result i s =
     (case vars s i of
        None \<Rightarrow> (Inl undefined_behaviour, s)
      | Some w \<Rightarrow>
          (case try_static_cast E T w of
             Inl e \<Rightarrow> (Inl e, s)
           | Inr _ \<Rightarrow>
               (case try_dynamic_cast E T w (heap s) of
                  Inl e \<Rightarrow> (Inl e, s)
                | Inr _ \<Rightarrow> static_indirect_cast_move E T result i s)))"

section \<open>Programs over the interface\<close>

datatype op =
    Default cname ref
  | In_place cname ref "int list"
  | Copy cname ref ref
  | Move cname ref ref
  | Conv_copy cname ref ref
  | Conv_move cname ref ref
  | From_value cname ref cname value_category object
  | Dtor ref
  | Copy_assign ref ref
  | Move_assign ref ref
  | Conv_copy_assign ref ref
  | Conv_move_assign ref ref
  | Assign_from_value ref cname value_category object
  | Swap ref ref
  | Set_member ref nat int
  | Make_indirect cname ref "int list"
  | Static_cast_copy cname ref ref
  | Static_cast_move cname ref ref
  | Dynamic_cast_copy cname ref ref
  | Dynamic_cast_move cname ref ref

fun exec :: "class_env \<Rightarrow> op \<Rightarrow> state \<Rightarrow> (error + unit) \<times> state" where
  "exec E (Default T r) s = indirect_default E T r s"
| "exec E (In_place T r args) s = indirect_in_place E T r args s"
| "exec E (Copy T r x) s = indirect_copy E T r x s"
| "exec E (Move T r x) s = indirect_move E T r x s"
| "exec E (Conv_copy T r x) s = indirect_conv_copy E T r x s"
| "exec E (Conv_move T r x) s = indirect_conv_move E T r x s"
| "exec E (From_value T r U c v) s = indirect_from_value E T r U c v s"
| "exec E (Dtor r) s = indirect_dtor r s"
| "exec E (Copy_assign r x) s = copy_assign E r x s"
| "exec E (Move_assign r x) s = move_assign E r x s"
| "exec E (Conv_copy_assign r x) s = conv_copy_assign E r x s"
| "exec E (Conv_move_assign r x) s = conv_move_assign E r x s"
| "exec E (Assign_from_value r U c v) s = assign_from_value E r U c v s"
| "exec E (Swap r x) s = swap_free r x s"
| "exec E (Set_member r k x) s = set_member r k x s"
| "exec E (Make_indirect T r args) s = make_indirect E T r args s"
| "exec E (Static_cast_copy T r x) s = static_indirect_cast_copy E T r x s"
| "exec E (Static_cast_move T r x) s = static_indirect_cast_move E T r x s"
| "exec E (Dynamic_cast_copy T r x) s = dynamic_indirect_cast_copy E T r x s"
| "exec E (Dynamic_cast_move T r x) s = dynamic_indirect_cast_move E T r x s"

text \<open>
  A client program is a sequence of such calls, started with no wrapper and an empty heap.
  An exception is caught by the client and the program goes on in the state the failed
  call left.
\<close>

definition init_state :: state where
  "init_state = \<lparr>vars = (\<lambda>_. None), heap = []\<rparr>"

fun run :: "class_env \<Rightarrow> op list \<Rightarrow> state \<Rightarrow> state" where
  "run E [] s = s"
| "run E (x # xs) s = run E xs (snd (exec E x s))"

section \<open>The classes of the tests\<close>

text \<open>
  \<^verbatim>\<open>base\<close>, \<^verbatim>\<open>derived\<close> and \<^verbatim>\<open>derived_other\<close> of \<^verbatim>\<open>test_indirect.cpp\<close>: one word, \<open>value\<close>.
  The move constructor of \<^verbatim>\<open>derived\<close> sets the source's \<open>value\<close> to \<open>0\<close>. The classes
  \<^verbatim>\<open>IntermediateBaseA\<close>, \<^verbatim>\<open>IntermediateBaseB\<close> and \<^verbatim>\<open>MultiplyDerived\<close> of
  \<^verbatim>\<open>TestDeepPtr.cpp\<close>: a \<^verbatim>\<open>MultiplyDerived\<close> is the words \<open>a_, ia_, b_, ib_, value_\<close>, with
  its \<^verbatim>\<open>IntermediateBaseA\<close> part at offset \<open>0\<close> and its \<^verbatim>\<open>IntermediateBaseB\<close> part at
  offset \<open>2\<close> (the virtual table pointers are left out: the class of an object is the
  \<open>conc\<close> of its block). All of them but \<^verbatim>\<open>derived\<close> have the implicit copy and move
  constructors.
\<close>

definition test_is_base_of :: "cname \<Rightarrow> cname \<Rightarrow> bool" where
  "test_is_base_of T U =
     (T = U
      \<or> (T = ''base'' \<and> (U = ''derived'' \<or> U = ''derived_other''))
      \<or> ((T = ''IntermediateBaseA'' \<or> T = ''IntermediateBaseB'') \<and> U = ''MultiplyDerived''))"

definition test_offset_of :: "cname \<Rightarrow> cname \<Rightarrow> nat" where
  "test_offset_of D B = (if D = ''MultiplyDerived'' \<and> B = ''IntermediateBaseB'' then 2 else 0)"

definition test_ctor :: "cname \<Rightarrow> int list \<Rightarrow> (error + object) option" where
  "test_ctor C args =
     (if C = ''derived'' then
        (case args of [] \<Rightarrow> Some (Inr [0]) | [v] \<Rightarrow> Some (Inr [v]) | _ \<Rightarrow> None)
      else if C = ''derived_other'' then
        (case args of [] \<Rightarrow> Some (Inr [0]) | _ \<Rightarrow> None)
      else if C = ''MultiplyDerived'' then
        (case args of [v] \<Rightarrow> Some (Inr [0, 3, 42, 101, v]) | _ \<Rightarrow> None)
      else None)"

definition test_copy_ctor :: "cname \<Rightarrow> object \<Rightarrow> error + object" where
  "test_copy_ctor C v = Inr v"

definition test_move_ctor :: "cname \<Rightarrow> object \<Rightarrow> (error + object) \<times> object" where
  "test_move_ctor C v = (if C = ''derived'' then (Inr v, [0]) else (Inr v, v))"

definition test_env :: class_env where
  "test_env = \<lparr>is_base_of = test_is_base_of, offset_of = test_offset_of, ctor = test_ctor,
     copy_ctor = test_copy_ctor, move_ctor = test_move_ctor\<rparr>"

text \<open>The same classes, with a copy constructor of \<^verbatim>\<open>derived\<close> that throws.\<close>

definition throwing_env :: class_env where
  "throwing_env = test_env\<lparr>copy_ctor := (\<lambda>C v. if C = ''derived'' then Inl (thrown 1) else Inr v)\<rparr>"

section \<open>The invariant of the class\<close>

text \<open>
  A block is live while it is allocated. The outcome of an expression that makes a block
  extends a heap when it keeps the live blocks live and any block it returns is new
  and live.
\<close>

definition live :: "heap \<Rightarrow> addr \<Rightarrow> bool" where
  "live h a \<longleftrightarrow> block_at h a \<noteq> None"

definition extends :: "heap \<Rightarrow> (error + addr option) \<times> heap \<Rightarrow> bool" where
  "extends h r \<longleftrightarrow>
     (\<forall>a. live h a \<longrightarrow> live (snd r) a) \<and>
     (\<forall>p. fst r = Inr p \<longrightarrow> (\<exists>a. p = Some a \<and> \<not> live h a \<and> live (snd r) a))"

text \<open>
  Every wrapper owns a live block, its \<open>ptr\<close> is the start of the value stored in that
  block, and no two wrappers own the same block.
\<close>

definition class_inv :: "state \<Rightarrow> bool" where
  "class_inv s \<longleftrightarrow>
     (\<forall>r w. vars s r = Some w \<longrightarrow>
        (\<exists>a. m w = \<lparr>ptr = Ptr a 0, cb = Some a\<rparr> \<and> live (heap s) a)) \<and>
     (\<forall>r r' w w'. vars s r = Some w \<longrightarrow> vars s r' = Some w' \<longrightarrow> cb (m w) = cb (m w') \<longrightarrow> r = r')"

text \<open>
  \<open>block_of\<close> reads \<^verbatim>\<open>m.cb.get()\<close>. \<open>holds s r T a b\<close>: at \<open>r\<close> there is an
  \<^verbatim>\<open>indirect<T>\<close> that owns the live block \<open>a\<close>, whose content is \<open>b\<close>.
\<close>

definition block_of :: "ref \<Rightarrow> state \<Rightarrow> addr option" where
  "block_of this s = (case vars s this of None \<Rightarrow> None | Some w \<Rightarrow> cb (m w))"

definition holds :: "state \<Rightarrow> ref \<Rightarrow> cname \<Rightarrow> addr \<Rightarrow> control_block \<Rightarrow> bool" where
  "holds s r T a b \<longleftrightarrow>
     vars s r = Some \<lparr>view = T, m = \<lparr>ptr = Ptr a 0, cb = Some a\<rparr>\<rparr> \<and> block_at (heap s) a = Some b"

section \<open>States of the tests\<close>

text \<open>\<^verbatim>\<open>indirect<derived> d1{in_place, 42};\<close>\<close>

definition derived_42 :: state where
  "derived_42 = snd (indirect_in_place test_env ''derived'' 1 [42] init_state)"

text \<open>\<^verbatim>\<open>indirect<base> b1{indirect<derived>(in_place, 42)};\<close> (the temporary is at \<open>1\<close>).\<close>

definition base_42 :: state where
  "base_42 = run test_env [In_place ''derived'' 1 [42], Conv_move ''base'' 2 1, Dtor 1] init_state"

text \<open>\<^verbatim>\<open>indirect<derived> d1{in_place, 42}; indirect<derived> d2;\<close>\<close>

definition two_derived :: state where
  "two_derived = run test_env [In_place ''derived'' 1 [42], Default ''derived'' 2] init_state"

text \<open>
  A \<^verbatim>\<open>MultiplyDerived\<close> made with \<^verbatim>\<open>make_indirect\<close> and cast to each of its two bases.
\<close>

definition two_views :: state where
  "two_views = run test_env [Make_indirect ''MultiplyDerived'' 1 [7],
     Static_cast_copy ''IntermediateBaseA'' 2 1, Static_cast_copy ''IntermediateBaseB'' 3 1] init_state"

text \<open>A program that moves, casts, assigns a wrapper to itself and swaps.\<close>

definition cast_program :: "op list" where
  "cast_program = [Make_indirect ''derived'' 1 [42], Conv_move ''base'' 2 1,
     Dynamic_cast_move ''derived_other'' 3 2, Dynamic_cast_move ''derived'' 3 2,
     Move_assign 3 3, Copy ''derived'' 4 3, Swap 3 4, Copy_assign 4 4]"

text \<open>
  \<^verbatim>\<open>indirect<base> b1{indirect<derived>(in_place, 42)}; indirect<base> b2{indirect<derived>{}};\<close>
  (the temporaries are at \<open>1\<close> and \<open>3\<close>).
\<close>

definition two_bases :: state where
  "two_bases = run test_env [In_place ''derived'' 1 [42], Conv_move ''base'' 2 1, Dtor 1,
     Default ''derived'' 3, Conv_move ''base'' 4 3, Dtor 3] init_state"

section \<open>Heap lemmas\<close>

lemma block_at_bounds: "block_at h a = Some b \<Longrightarrow> 0 < a \<and> a \<le> length h"
  by (auto simp: block_at_def split: if_splits)

lemma block_at_fresh [simp]: "block_at h (Suc (length h)) = None"
  by (simp add: block_at_def)

lemma block_at_append [simp]:
  "block_at (h @ [x]) a = (if a = Suc (length h) then x else block_at h a)"
  by (auto simp: block_at_def nth_append)

lemma length_store_block [simp]: "length (store_block a b h) = length h"
  by (simp add: store_block_def)

lemma length_delete_block [simp]: "length (delete_block a h) = length h"
  by (simp add: delete_block_def)

lemma block_at_store_block [simp]:
  "block_at (store_block a b h) x = (if x = a \<and> block_at h a \<noteq> None then Some b else block_at h x)"
  by (auto simp: store_block_def block_at_def)

lemma block_at_delete_block [simp]:
  "block_at (delete_block a h) x = (if x = a then None else block_at h x)"
  by (auto simp: delete_block_def block_at_def)

section \<open>The invariant is kept\<close>

lemma extends_make_dcb: "extends h (make_dcb E U args h)"
  by (auto simp: extends_def live_def make_dcb_def make_unique_def split: option.splits sum.splits)

lemma extends_make_dcb_from: "extends h (make_dcb_from E U c v h)"
  by (auto simp: extends_def live_def make_dcb_from_def make_unique_def split: option.splits sum.splits value_category.splits)

lemma extends_dcb_copy: "extends h (dcb_copy E p h)"
  by (auto simp: extends_def live_def dcb_copy_def make_unique_def split: option.splits sum.splits)

lemma extends_dcb_move: "extends h (dcb_move E p h)"
  by (auto simp: extends_def live_def dcb_move_def make_unique_def split: option.splits sum.splits prod.splits)

lemma inv_init_state: "class_inv init_state"
  by (simp add: class_inv_def init_state_def)

lemma inv_update:
  assumes w: "class_inv s"
    and lv: "\<And>a. live (heap s) a \<Longrightarrow> a \<notin> D \<Longrightarrow> live h a"
    and new: "\<And>w'. x = Some w' \<Longrightarrow>
        \<exists>a. m w' = \<lparr>ptr = Ptr a 0, cb = Some a\<rparr> \<and> live h a \<and>
            (\<forall>r w. r \<noteq> this \<longrightarrow> vars s r = Some w \<longrightarrow> cb (m w) \<noteq> Some a)"
    and old: "\<And>r w a. r \<noteq> this \<Longrightarrow> vars s r = Some w \<Longrightarrow> cb (m w) = Some a \<Longrightarrow> a \<notin> D"
  shows "class_inv \<lparr>vars = (vars s)(this := x), heap = h\<rparr>"
proof -
  have inv1: "\<And>r w. vars s r = Some w \<Longrightarrow> \<exists>a. m w = \<lparr>ptr = Ptr a 0, cb = Some a\<rparr> \<and> live (heap s) a"
    using w unfolding class_inv_def by blast
  have inv2: "\<And>r r' w w'. vars s r = Some w \<Longrightarrow> vars s r' = Some w' \<Longrightarrow> cb (m w) = cb (m w') \<Longrightarrow> r = r'"
    using w unfolding class_inv_def by blast
  have p1: "\<exists>a. m w' = \<lparr>ptr = Ptr a 0, cb = Some a\<rparr> \<and> live h a"
    if "((vars s)(this := x)) r = Some w'" for r w'
  proof (cases "r = this")
    case True
    with that have "x = Some w'" by simp
    from new [OF this] show ?thesis by blast
  next
    case False
    with that have v: "vars s r = Some w'" by simp
    from inv1 [OF v] obtain a where a: "m w' = \<lparr>ptr = Ptr a 0, cb = Some a\<rparr>" "live (heap s) a"
      by blast
    from a(1) have "cb (m w') = Some a" by simp
    from old [OF False v this] have "a \<notin> D" .
    with a lv show ?thesis by blast
  qed
  have p2: "r = r'"
    if "((vars s)(this := x)) r = Some w1" "((vars s)(this := x)) r' = Some w2"
       "cb (m w1) = cb (m w2)" for r r' w1 w2
  proof (cases "r = this"; cases "r' = this")
    assume "r = this" "r' = this" then show ?thesis by simp
  next
    assume c: "r = this" "r' \<noteq> this"
    with that have "x = Some w1" "vars s r' = Some w2" by simp_all
    from new [OF this(1)] this(2) c(2) that(3) show ?thesis by auto
  next
    assume c: "r \<noteq> this" "r' = this"
    with that have "x = Some w2" "vars s r = Some w1" by simp_all
    from new [OF this(1)] this(2) c(1) that(3) show ?thesis by auto
  next
    assume c: "r \<noteq> this" "r' \<noteq> this"
    with that have "vars s r = Some w1" "vars s r' = Some w2" by simp_all
    from inv2 [OF this that(3)] show ?thesis .
  qed
  show ?thesis
    unfolding class_inv_def state.select_convs
  proof (intro conjI allI impI)
    fix r w assume "((vars s)(this := x)) r = Some w"
    then show "\<exists>a. m w = \<lparr>ptr = Ptr a 0, cb = Some a\<rparr> \<and> live h a" by (rule p1)
  next
    fix r r' w w'
    assume "((vars s)(this := x)) r = Some w" "((vars s)(this := x)) r' = Some w'"
      "cb (m w) = cb (m w')"
    then show "r = r'" by (rule p2)
  qed
qed

lemma inv_heap:
  assumes "class_inv s" and "\<And>a. live (heap s) a \<Longrightarrow> live h a"
  shows "class_inv (s\<lparr>heap := h\<rparr>)"
  using assms unfolding class_inv_def by simp blast

lemma inv_fresh:
  assumes "class_inv s" and "\<not> live (heap s) a" and "vars s r = Some w"
  shows "cb (m w) \<noteq> Some a"
  using assms unfolding class_inv_def by (metis data.select_convs(2) option.inject)

lemma inv_init_m:
  assumes "class_inv s" and "extends (heap s) r"
  shows "class_inv (snd (init_m T this r s))"
proof (cases r)
  case (Pair res h)
  with assms(2) have lv: "\<And>a. live (heap s) a \<Longrightarrow> live h a"
    by (simp add: extends_def)
  show ?thesis
  proof (cases res)
    case (Inl e)
    with Pair show ?thesis using inv_heap [OF assms(1) lv] by (simp add: init_m_def)
  next
    case (Inr p)
    with Pair assms(2) obtain a where a: "p = Some a" "\<not> live (heap s) a" "live h a"
      by (auto simp: extends_def)
    from a(3) obtain b where b: "block_at h a = Some b" by (auto simp: live_def)
    have "class_inv \<lparr>vars = (vars s)(this := Some \<lparr>view = T, m = \<lparr>ptr = Ptr a 0, cb = Some a\<rparr>\<rparr>), heap = h\<rparr>"
    proof (rule inv_update [OF assms(1), where D = "{}"])
      show "\<And>x. live (heap s) x \<Longrightarrow> x \<notin> {} \<Longrightarrow> live h x" using lv by blast
    next
      fix w' assume "Some \<lparr>view = T, m = \<lparr>ptr = Ptr a 0, cb = Some a\<rparr>\<rparr> = Some w'"
      then have "m w' = \<lparr>ptr = Ptr a 0, cb = Some a\<rparr>" by auto
      then show "\<exists>a. m w' = \<lparr>ptr = Ptr a 0, cb = Some a\<rparr> \<and> live h a \<and>
            (\<forall>r w. r \<noteq> this \<longrightarrow> vars s r = Some w \<longrightarrow> cb (m w) \<noteq> Some a)"
        using a inv_fresh [OF assms(1) a(2)] by blast
    qed simp
    then show ?thesis using Pair Inr a b
      by (simp add: init_m_def data_ctor_def dcb_ptr_def static_cast_void_def)
  qed
qed

lemma inv_assign_m:
  assumes "class_inv s" and "extends (heap s) r"
  shows "class_inv (snd (assign_m this r s))"
proof (cases r)
  case (Pair res h)
  with assms(2) have lv: "\<And>a. live (heap s) a \<Longrightarrow> live h a"
    by (simp add: extends_def)
  show ?thesis
  proof (cases res)
    case (Inl e)
    with Pair show ?thesis using inv_heap [OF assms(1) lv] by (simp add: assign_m_def)
  next
    case (Inr p)
    with Pair assms(2) obtain a where a: "p = Some a" "\<not> live (heap s) a" "live h a"
      by (auto simp: extends_def)
    from a(3) obtain b where b: "block_at h a = Some b" by (auto simp: live_def)
    show ?thesis
    proof (cases "vars s this")
      case None
      with Pair Inr show ?thesis using inv_heap [OF assms(1) lv] by (simp add: assign_m_def)
    next
      case (Some w)
      from assms(1) Some obtain a0 where a0: "m w = \<lparr>ptr = Ptr a0 0, cb = Some a0\<rparr>" "live (heap s) a0"
        unfolding class_inv_def by blast
      from a0 a have ne: "a \<noteq> a0" by auto
      have "class_inv \<lparr>vars = (vars s)(this := Some (w\<lparr>m := \<lparr>ptr = Ptr a 0, cb = Some a\<rparr>\<rparr>)),
                heap = delete_block a0 h\<rparr>"
      proof (rule inv_update [OF assms(1), where D = "{a0}"])
        show "\<And>x. live (heap s) x \<Longrightarrow> x \<notin> {a0} \<Longrightarrow> live (delete_block a0 h) x"
          using lv by (simp add: live_def)
      next
        fix w' assume "Some (w\<lparr>m := \<lparr>ptr = Ptr a 0, cb = Some a\<rparr>\<rparr>) = Some w'"
        then have "m w' = \<lparr>ptr = Ptr a 0, cb = Some a\<rparr>" by auto
        moreover have "live (delete_block a0 h) a" using a(3) ne by (simp add: live_def)
        ultimately show "\<exists>a. m w' = \<lparr>ptr = Ptr a 0, cb = Some a\<rparr> \<and> live (delete_block a0 h) a \<and>
            (\<forall>r w. r \<noteq> this \<longrightarrow> vars s r = Some w \<longrightarrow> cb (m w) \<noteq> Some a)"
          using inv_fresh [OF assms(1) a(2)] by blast
      next
        fix r w1 x assume h: "r \<noteq> this" "vars s r = Some w1" "cb (m w1) = Some x"
        have "x \<noteq> a0"
        proof
          assume "x = a0"
          with h(3) a0(1) have "cb (m w1) = cb (m w)" by simp
          with assms(1) h(2) Some have "r = this" unfolding class_inv_def by blast
          with h(1) show False by simp
        qed
        then show "x \<notin> {a0}" by simp
      qed
      then show ?thesis using Pair Inr a b Some a0
        by (simp add: assign_m_def data_assign_def dcb_ptr_def static_cast_void_def
              unique_ptr_reset_def)
    qed
  qed
qed

lemma inv_indirect_dtor:
  assumes "class_inv s"
  shows "class_inv (snd (indirect_dtor this s))"
proof (cases "vars s this")
  case None
  with assms show ?thesis by (simp add: indirect_dtor_def)
next
  case (Some w)
  from assms Some obtain a0 where a0: "m w = \<lparr>ptr = Ptr a0 0, cb = Some a0\<rparr>"
    unfolding class_inv_def by blast
  have "class_inv \<lparr>vars = (vars s)(this := None), heap = delete_block a0 (heap s)\<rparr>"
  proof (rule inv_update [OF assms, where D = "{a0}"])
    show "\<And>x. live (heap s) x \<Longrightarrow> x \<notin> {a0} \<Longrightarrow> live (delete_block a0 (heap s)) x"
      by (simp add: live_def)
  next
    fix r w1 x assume h: "r \<noteq> this" "vars s r = Some w1" "cb (m w1) = Some x"
    have "x \<noteq> a0"
    proof
      assume "x = a0"
      with h(3) a0 have "cb (m w1) = cb (m w)" by simp
      with assms h(2) Some have "r = this" unfolding class_inv_def by blast
      with h(1) show False by simp
    qed
    then show "x \<notin> {a0}" by simp
  qed simp
  then show ?thesis using Some a0 by (simp add: indirect_dtor_def unique_ptr_reset_def)
qed

lemma live_store:
  assumes "store h p k x = Inr h'" and "live h a"
  shows "live h' a"
  using assms
  by (auto simp: store_def live_def split: pointer.splits option.splits if_splits)

lemma inv_set_member:
  assumes "class_inv s"
  shows "class_inv (snd (set_member this k x s))"
proof (cases "arrow this s")
  case (Inl e)
  with assms show ?thesis by (simp add: set_member_def)
next
  case (Inr p)
  show ?thesis
  proof (cases "store (heap s) p k x")
    case (Inl e)
    with Inr assms show ?thesis by (simp add: set_member_def)
  next
    case st: (Inr h)
    have "class_inv (s\<lparr>heap := h\<rparr>)"
      by (rule inv_heap [OF assms]) (rule live_store [OF st])
    with Inr st show ?thesis by (simp add: set_member_def)
  qed
qed

lemma swap_vars:
  assumes "V x = Some w" and "V y = Some w'"
  shows "swap_cb x y (swap_ptr x y V) = V(x \<mapsto> w\<lparr>m := m w'\<rparr>, y \<mapsto> w'\<lparr>m := m w\<rparr>)"
proof (cases "x = y")
  case True
  with assms have "w' = w" by simp
  with True assms show ?thesis
    by (simp add: swap_cb_def swap_ptr_def)
next
  case False
  have e1: "(m w)\<lparr>ptr := ptr (m w'), cb := cb (m w')\<rparr> = m w'" by simp
  have e2: "(m w')\<lparr>ptr := ptr (m w), cb := cb (m w)\<rparr> = m w" by simp
  from False assms show ?thesis
    by (simp add: swap_cb_def swap_ptr_def e1 e2 fun_upd_twist)
qed

lemma inv_swap_vars:
  assumes w0: "class_inv s" and x: "vars s x = Some w" and y: "vars s y = Some w'"
  shows "class_inv (s\<lparr>vars := (vars s)(x \<mapsto> w\<lparr>m := m w'\<rparr>, y \<mapsto> w'\<lparr>m := m w\<rparr>)\<rparr>)"
proof (cases "x = y")
  case True
  with x y have "w' = w" by simp
  with True x have "(vars s)(x \<mapsto> w\<lparr>m := m w'\<rparr>, y \<mapsto> w'\<lparr>m := m w\<rparr>) = vars s"
    by (auto simp: fun_eq_iff)
  with w0 show ?thesis by simp
next
  case False
  let ?V = "(vars s)(x \<mapsto> w\<lparr>m := m w'\<rparr>, y \<mapsto> w'\<lparr>m := m w\<rparr>)"
  have inv1: "\<And>r w. vars s r = Some w \<Longrightarrow> \<exists>a. m w = \<lparr>ptr = Ptr a 0, cb = Some a\<rparr> \<and> live (heap s) a"
    using w0 unfolding class_inv_def by blast
  have inv2: "\<And>r r' w w'. vars s r = Some w \<Longrightarrow> vars s r' = Some w' \<Longrightarrow> cb (m w) = cb (m w') \<Longrightarrow> r = r'"
    using w0 unfolding class_inv_def by blast
  define sw where "sw r = (if r = x then y else if r = y then x else r)" for r
  have src: "\<exists>w0. vars s (sw r) = Some w0 \<and> m w0 = m w1" if "?V r = Some w1" for r w1
    using that x y False by (auto simp: sw_def split: if_splits)
  have sw_inj: "sw r = sw r' \<Longrightarrow> r = r'" for r r'
    using False by (auto simp: sw_def split: if_splits)
  show ?thesis
    unfolding class_inv_def state.select_convs state.simps
  proof (intro conjI allI impI)
    fix r w1 assume "vars (s\<lparr>vars := ?V\<rparr>) r = Some w1"
    then have "?V r = Some w1" by simp
    from src [OF this] obtain w0 where "vars s (sw r) = Some w0" "m w0 = m w1" by blast
    with inv1 [of "sw r" w0]
    show "\<exists>a. m w1 = \<lparr>ptr = Ptr a 0, cb = Some a\<rparr> \<and> live (heap (s\<lparr>vars := ?V\<rparr>)) a" by simp
  next
    fix r r' w1 w2
    assume "vars (s\<lparr>vars := ?V\<rparr>) r = Some w1" "vars (s\<lparr>vars := ?V\<rparr>) r' = Some w2"
      and eq: "cb (m w1) = cb (m w2)"
    then have "?V r = Some w1" "?V r' = Some w2" by simp_all
    from src [OF this(1)] src [OF this(2)] obtain u1 u2 where
      "vars s (sw r) = Some u1" "m u1 = m w1" "vars s (sw r') = Some u2" "m u2 = m w2" by blast
    with inv2 [of "sw r" u1 "sw r'" u2] eq have "sw r = sw r'" by simp
    then show "r = r'" by (rule sw_inj)
  qed
qed

lemma inv_indirect_swap:
  assumes "class_inv s"
  shows "class_inv (snd (indirect_swap this other s))"
proof (cases "vars s this")
  case None
  with assms show ?thesis by (simp add: indirect_swap_def)
next
  case x: (Some w)
  show ?thesis
  proof (cases "vars s other")
    case None
    with x assms show ?thesis by (simp add: indirect_swap_def)
  next
    case y: (Some w')
    show ?thesis
      using assms inv_swap_vars [OF assms x y] x y
      by (simp add: indirect_swap_def swap_vars [OF x y])
  qed
qed

lemma inv_exec:
  assumes "class_inv s"
  shows "class_inv (snd (exec E x s))"
proof (cases x)
  case (Default T r)
  then show ?thesis
    by (simp add: indirect_default_def inv_init_m [OF assms extends_make_dcb])
next
  case (In_place T r args)
  then show ?thesis
    by (simp add: indirect_in_place_def inv_init_m [OF assms extends_make_dcb])
next
  case (Copy T r y)
  then show ?thesis using assms
    by (simp add: indirect_copy_def inv_init_m [OF assms extends_dcb_copy] split: option.splits)
next
  case (Move T r y)
  then show ?thesis using assms
    by (simp add: indirect_move_def inv_init_m [OF assms extends_dcb_move] split: option.splits)
next
  case (Conv_copy T r y)
  then show ?thesis using assms
    by (simp add: indirect_conv_copy_def inv_init_m [OF assms extends_dcb_copy] split: option.splits)
next
  case (Conv_move T r y)
  then show ?thesis using assms
    by (simp add: indirect_conv_move_def inv_init_m [OF assms extends_dcb_move] split: option.splits)
next
  case (From_value T r U c v)
  then show ?thesis using assms
    by (simp add: indirect_from_value_def inv_init_m [OF assms extends_make_dcb_from])
next
  case (Dtor r)
  then show ?thesis by (simp add: inv_indirect_dtor [OF assms])
next
  case (Copy_assign r y)
  then show ?thesis using assms
    by (simp add: copy_assign_def inv_assign_m [OF assms extends_dcb_copy] split: option.splits)
next
  case (Move_assign r y)
  then show ?thesis using assms
    by (simp add: move_assign_def inv_assign_m [OF assms extends_dcb_move] split: option.splits)
next
  case (Conv_copy_assign r y)
  then show ?thesis using assms
    by (simp add: conv_copy_assign_def inv_assign_m [OF assms extends_dcb_copy] split: option.splits)
next
  case (Conv_move_assign r y)
  then show ?thesis using assms
    by (simp add: conv_move_assign_def inv_assign_m [OF assms extends_dcb_move] split: option.splits)
next
  case (Assign_from_value r U c v)
  then show ?thesis using assms
    by (simp add: assign_from_value_def inv_assign_m [OF assms extends_make_dcb_from]
          split: option.splits)
next
  case (Swap r y)
  then show ?thesis by (simp add: swap_free_def inv_indirect_swap [OF assms])
next
  case (Set_member r k v)
  then show ?thesis by (simp add: inv_set_member [OF assms])
next
  case (Make_indirect T r args)
  then show ?thesis
    by (simp add: make_indirect_def indirect_in_place_def inv_init_m [OF assms extends_make_dcb])
next
  case (Static_cast_copy T r y)
  then show ?thesis using assms
    by (simp add: static_indirect_cast_copy_def indirect_from_cb_def
          inv_init_m [OF assms extends_dcb_copy] split: option.splits sum.splits)
next
  case (Static_cast_move T r y)
  then show ?thesis using assms
    by (simp add: static_indirect_cast_move_def indirect_from_cb_def
          inv_init_m [OF assms extends_dcb_move] split: option.splits sum.splits)
next
  case (Dynamic_cast_copy T r y)
  then show ?thesis using assms
    by (simp add: dynamic_indirect_cast_copy_def static_indirect_cast_copy_def indirect_from_cb_def
          inv_init_m [OF assms extends_dcb_copy] split: option.splits sum.splits)
next
  case (Dynamic_cast_move T r y)
  then show ?thesis using assms
    by (simp add: dynamic_indirect_cast_move_def static_indirect_cast_move_def indirect_from_cb_def
          inv_init_m [OF assms extends_dcb_move] split: option.splits sum.splits)
qed

lemma inv_run: "class_inv s \<Longrightarrow> class_inv (run E xs s)"
  by (induction xs arbitrary: s) (simp_all add: inv_exec)

section \<open>What the operations return\<close>

lemma dcb_copy_ok:
  assumes "block_at h a = Some b" and "copy_ctor E (conc b) (t b) = Inr v"
  shows "dcb_copy E (Some a) h = (Inr (Some (Suc (length h))), h @ [Some \<lparr>conc = conc b, t = v\<rparr>])"
  using assms by (simp add: dcb_copy_def make_unique_def)

lemma dcb_copy_throws:
  assumes "block_at h a = Some b" and "copy_ctor E (conc b) (t b) = Inl e"
  shows "dcb_copy E (Some a) h = (Inl e, h)"
  using assms by (simp add: dcb_copy_def)

lemma dcb_move_ok:
  assumes "block_at h a = Some b" and "move_ctor E (conc b) (t b) = (Inr v, r)"
  shows "dcb_move E (Some a) h =
    (Inr (Some (Suc (length h))), store_block a (b\<lparr>t := r\<rparr>) h @ [Some \<lparr>conc = conc b, t = v\<rparr>])"
  using assms by (simp add: dcb_move_def make_unique_def)

lemma init_m_ok:
  "init_m T this (Inr (Some (Suc (length h))), h @ [Some b]) s =
     (Inr (), \<lparr>vars = (vars s)(this \<mapsto>
        \<lparr>view = T, m = \<lparr>ptr = Ptr (Suc (length h)) 0, cb = Some (Suc (length h))\<rparr>\<rparr>), heap = h @ [Some b]\<rparr>)"
  by (simp add: init_m_def data_ctor_def dcb_ptr_def static_cast_void_def)

lemma assign_m_ok:
  assumes "vars s this = Some w"
  shows "assign_m this (Inr (Some (Suc (length h))), h @ [Some b]) s =
     (Inr (), \<lparr>vars = (vars s)(this \<mapsto>
        w\<lparr>m := \<lparr>ptr = Ptr (Suc (length h)) 0, cb = Some (Suc (length h))\<rparr>\<rparr>),
        heap = unique_ptr_reset (cb (m w)) (h @ [Some b])\<rparr>)"
  using assms by (simp add: assign_m_def data_assign_def dcb_ptr_def static_cast_void_def)

lemma holdsD:
  assumes "holds s r T a b"
  shows "vars s r = Some \<lparr>view = T, m = \<lparr>ptr = Ptr a 0, cb = Some a\<rparr>\<rparr>" and "block_at (heap s) a = Some b"
    and "0 < a" and "a \<le> length (heap s)"
  using assms block_at_bounds [of "heap s" a b] by (simp_all add: holds_def)

lemma deref_holds: "holds s r T a b \<Longrightarrow> deref r s = Inr b"
  by (simp add: holds_def deref_def)

lemma arrow_holds: "holds s r T a b \<Longrightarrow> arrow r s = Inr (Ptr a 0)"
  by (simp add: holds_def arrow_def)

lemma init_m_copy_holds:
  assumes src: "holds s other U a b" and cp: "copy_ctor E (conc b) (t b) = Inr v"
  shows "fst (init_m T this (dcb_copy E (Some a) (heap s)) s) = Inr ()"
    and "holds (snd (init_m T this (dcb_copy E (Some a) (heap s)) s)) this T (Suc (length (heap s)))
           \<lparr>conc = conc b, t = v\<rparr>"
    and "this \<noteq> other \<Longrightarrow> holds (snd (init_m T this (dcb_copy E (Some a) (heap s)) s)) other U a b"
    and "Suc (length (heap s)) \<noteq> a"
  using holdsD [OF src]
  by (simp_all add: dcb_copy_ok [OF holdsD(2) [OF src] cp] init_m_ok holds_def)

lemma init_m_move_holds:
  assumes src: "holds s other U a b" and mv: "move_ctor E (conc b) (t b) = (Inr v, r)"
  shows "fst (init_m T this (dcb_move E (Some a) (heap s)) s) = Inr ()"
    and "holds (snd (init_m T this (dcb_move E (Some a) (heap s)) s)) this T (Suc (length (heap s)))
           \<lparr>conc = conc b, t = v\<rparr>"
    and "this \<noteq> other \<Longrightarrow>
           holds (snd (init_m T this (dcb_move E (Some a) (heap s)) s)) other U a (b\<lparr>t := r\<rparr>)"
    and "Suc (length (heap s)) \<noteq> a"
  using holdsD [OF src]
  by (simp_all add: dcb_move_ok [OF holdsD(2) [OF src] mv]
        init_m_ok [where h = "store_block a (b\<lparr>t := r\<rparr>) (heap s)", simplified] holds_def)

lemma assign_m_copy_holds:
  assumes tgt: "holds s this T a0 b0" and src: "holds s other U a b"
    and cp: "copy_ctor E (conc b) (t b) = Inr v"
  shows "fst (assign_m this (dcb_copy E (Some a) (heap s)) s) = Inr ()"
    and "holds (snd (assign_m this (dcb_copy E (Some a) (heap s)) s)) this T (Suc (length (heap s)))
           \<lparr>conc = conc b, t = v\<rparr>"
    and "block_at (heap (snd (assign_m this (dcb_copy E (Some a) (heap s)) s))) a0 = None"
    and "this \<noteq> other \<Longrightarrow> a0 \<noteq> a \<Longrightarrow>
           holds (snd (assign_m this (dcb_copy E (Some a) (heap s)) s)) other U a b"
    and "Suc (length (heap s)) \<noteq> a0" and "Suc (length (heap s)) \<noteq> a"
  using holdsD [OF src] holdsD [OF tgt]
  by (simp_all add: dcb_copy_ok [OF holdsD(2) [OF src] cp] assign_m_ok [OF holdsD(1) [OF tgt]]
        holds_def unique_ptr_reset_def)

lemma assign_m_move_holds:
  assumes tgt: "holds s this T a0 b0" and src: "holds s other U a b"
    and mv: "move_ctor E (conc b) (t b) = (Inr v, r)"
  shows "fst (assign_m this (dcb_move E (Some a) (heap s)) s) = Inr ()"
    and "holds (snd (assign_m this (dcb_move E (Some a) (heap s)) s)) this T (Suc (length (heap s)))
           \<lparr>conc = conc b, t = v\<rparr>"
    and "block_at (heap (snd (assign_m this (dcb_move E (Some a) (heap s)) s))) a0 = None"
    and "this \<noteq> other \<Longrightarrow> a0 \<noteq> a \<Longrightarrow>
           holds (snd (assign_m this (dcb_move E (Some a) (heap s)) s)) other U a (b\<lparr>t := r\<rparr>)"
    and "Suc (length (heap s)) \<noteq> a0" and "Suc (length (heap s)) \<noteq> a"
  using holdsD [OF src] holdsD [OF tgt]
  by (simp_all add: dcb_move_ok [OF holdsD(2) [OF src] mv]
        assign_m_ok [OF holdsD(1) [OF tgt], where h = "store_block a (b\<lparr>t := r\<rparr>) (heap s)", simplified]
        holds_def unique_ptr_reset_def)

lemma indirect_copy_unfold:
  "holds s other T a b \<Longrightarrow>
     indirect_copy E T this other s = init_m T this (dcb_copy E (Some a) (heap s)) s"
  by (simp add: indirect_copy_def holds_def)

lemma indirect_move_unfold:
  "holds s other T a b \<Longrightarrow>
     indirect_move E T this other s = init_m T this (dcb_move E (Some a) (heap s)) s"
  by (simp add: indirect_move_def holds_def)

lemma indirect_conv_copy_unfold:
  "holds s other U a b \<Longrightarrow> is_base_of E T U \<Longrightarrow>
     indirect_conv_copy E T this other s = init_m T this (dcb_copy E (Some a) (heap s)) s"
  by (simp add: indirect_conv_copy_def holds_def)

lemma copy_assign_unfold:
  "holds s this T a0 b0 \<Longrightarrow> holds s other T a b \<Longrightarrow>
     copy_assign E this other s = assign_m this (dcb_copy E (Some a) (heap s)) s"
  by (simp add: copy_assign_def holds_def)

lemma conv_copy_assign_unfold:
  "holds s this T a0 b0 \<Longrightarrow> holds s other U a b \<Longrightarrow> is_base_of E T U \<Longrightarrow>
     conv_copy_assign E this other s = assign_m this (dcb_copy E (Some a) (heap s)) s"
  by (simp add: conv_copy_assign_def holds_def)

lemma move_assign_unfold:
  "holds s this T a0 b0 \<Longrightarrow> holds s other T a b \<Longrightarrow>
     move_assign E this other s = assign_m this (dcb_move E (Some a) (heap s)) s"
  by (simp add: move_assign_def holds_def)

lemma get_member_holds:
  "holds s r T a b \<Longrightarrow>
     get_member r k s = (if k < length (t b) then Inr (t b ! k) else Inl undefined_behaviour)"
  by (simp add: get_member_def arrow_def load_def holds_def)

lemma set_member_frame:
  assumes "holds s r T a b" and "holds s r' T' a' b'" and "a \<noteq> a'"
  shows "holds (snd (set_member r k x s)) r' T' a' b'"
  using assms by (simp add: set_member_def arrow_def store_def holds_def)

lemma set_member_self:
  assumes "holds s r T a b" and "k < length (t b)"
  shows "holds (snd (set_member r k x s)) r T a (b\<lparr>t := (t b)[k := x]\<rparr>)"
  using assms by (simp add: set_member_def arrow_def store_def holds_def)

text \<open>Under the invariant, two wrappers own different blocks.\<close>

lemma inv_holds_distinct:
  assumes "class_inv s" and "holds s x T a b" and "holds s y U a' b'" and "x \<noteq> y"
  shows "a \<noteq> a'"
proof
  assume "a = a'"
  with assms(2,3) have "cb (m \<lparr>view = T, m = \<lparr>ptr = Ptr a 0, cb = Some a\<rparr>\<rparr>)
      = cb (m \<lparr>view = U, m = \<lparr>ptr = Ptr a' 0, cb = Some a'\<rparr>\<rparr>)" by simp
  with assms(1) holdsD(1) [OF assms(2)] holdsD(1) [OF assms(3)] have "x = y"
    unfolding class_inv_def by blast
  with assms(4) show False by simp
qed

section \<open>No wrapper is ever empty\<close>

text \<open>
  Claim C10. In every state that a client program reaches, whatever calls it made
  (constructors, copy and move assignment, swap, casts, destructors of other wrappers) and
  whether or not the wrapper was the source of a move or of a cast, every wrapper has a
  control block handle that is not null and a view pointer that is not null; the block is
  allocated, so \<^verbatim>\<open>operator->\<close> returns a pointer to a held value and \<^verbatim>\<open>operator*\<close> reads a held
  value.
\<close>

theorem never_empty:
  assumes "vars (run E xs init_state) r = Some w"
  shows "\<exists>a b. cb (m w) = Some a \<and> ptr (m w) = Ptr a 0
           \<and> block_at (heap (run E xs init_state)) a = Some b
           \<and> arrow r (run E xs init_state) = Inr (Ptr a 0)
           \<and> deref r (run E xs init_state) = Inr b"
proof -
  have "class_inv (run E xs init_state)" by (rule inv_run [OF inv_init_state])
  with assms obtain a where a: "m w = \<lparr>ptr = Ptr a 0, cb = Some a\<rparr>"
      "live (heap (run E xs init_state)) a"
    unfolding class_inv_def by blast
  from a(2) obtain b where b: "block_at (heap (run E xs init_state)) a = Some b"
    by (auto simp: live_def)
  from a(1) have "cb (m w) = Some a" "ptr (m w) = Ptr a 0" by simp_all
  with assms b show ?thesis by (simp add: arrow_def deref_def)
qed

text \<open>
  In \<open>cast_program\<close> the wrapper at \<open>2\<close> is the source of a move cast: it keeps its block,
  which holds what the move constructor of \<^verbatim>\<open>derived\<close> left.
\<close>

theorem never_empty_witness:
  "vars (run test_env cast_program init_state) 2
     = Some \<lparr>view = ''base'', m = \<lparr>ptr = Ptr 2 0, cb = Some 2\<rparr>\<rparr>
   \<and> arrow 2 (run test_env cast_program init_state) = Inr (Ptr 2 0)
   \<and> deref 2 (run test_env cast_program init_state) = Inr \<lparr>conc = ''derived'', t = [0]\<rparr>"
proof -
  have h: "vars (run test_env cast_program init_state) 2
     = Some \<lparr>view = ''base'', m = \<lparr>ptr = Ptr 2 0, cb = Some 2\<rparr>\<rparr>"
    by code_simp
  have b: "block_at (heap (run test_env cast_program init_state)) 2
     = Some \<lparr>conc = ''derived'', t = [0]\<rparr>"
    by code_simp
  from never_empty [OF h] b h show ?thesis by auto
qed

section \<open>Views of a class with two bases\<close>

text \<open>
  Claim C1, at the classes of \<^verbatim>\<open>TestDeepPtr.cpp\<close>. A \<^verbatim>\<open>MultiplyDerived\<close> has its
  \<^verbatim>\<open>IntermediateBaseB\<close> part two words after its \<^verbatim>\<open>IntermediateBaseA\<close> part. Cast to either
  base, the wrapper's view pointer is the start of the stored object: the two pointers sit at
  the same offset \<open>0\<close>, and through the \<^verbatim>\<open>IntermediateBaseB\<close> view the members \<open>b_\<close> and
  \<open>ib_\<close> (words \<open>0\<close> and \<open>1\<close> of that base) read \<open>0\<close> and \<open>3\<close>, the values of \<open>a_\<close> and
  \<open>ia_\<close>, instead of \<open>42\<close> and \<open>101\<close>.
\<close>

theorem multiple_base_view_pointer_unadjusted:
  "arrow 2 two_views = Inr (Ptr 2 0) \<and> arrow 3 two_views = Inr (Ptr 3 0)
   \<and> deref 3 two_views = Inr \<lparr>conc = ''MultiplyDerived'', t = [0, 3, 42, 101, 7]\<rparr>
   \<and> offset_of test_env ''MultiplyDerived'' ''IntermediateBaseA'' = 0
   \<and> offset_of test_env ''MultiplyDerived'' ''IntermediateBaseB'' = 2
   \<and> get_member 3 0 two_views = Inr 0 \<and> get_member 3 1 two_views = Inr 3"
  by code_simp

section \<open>The checked cast\<close>

text \<open>
  A request for the view class itself, or for one of its bases, is not checked at all:
  whatever the block holds, \<^verbatim>\<open>try_dynamic_cast\<close> returns normally.
\<close>

lemma try_dynamic_cast_static:
  assumes "ptr (m w) = Ptr a d" and "T = view w \<or> is_base_of E T (view w)"
  shows "try_dynamic_cast E T w h = Inr ()"
  using assms by (auto simp: try_dynamic_cast_def dynamic_cast_def)

text \<open>
  Claim C3. Let the cast be a downcast: the requested class \<open>T\<close> is neither the view class
  of the wrapper nor one of its bases (and the call compiles). When the class of the stored
  object is neither \<open>T\<close> nor derived from it, \<^verbatim>\<open>dynamic_indirect_cast<T>\<close> throws
  \<^verbatim>\<open>bad_indirect_cast\<close> and the whole state, the source wrapper and its block included, is as
  before the call, in the copy form and in the move form: the check runs before the block
  is copied or moved.
\<close>

theorem failed_dynamic_cast_leaves_source:
  assumes "vars s i = Some w" and "ptr (m w) = Ptr a d" and "block_at (heap s) a = Some b"
    and "try_static_cast E T w = Inr ()"
    and "T \<noteq> view w" and "\<not> is_base_of E T (view w)"
    and "T \<noteq> conc b" and "\<not> is_base_of E T (conc b)"
  shows "dynamic_indirect_cast_copy E T result i s = (Inl bad_indirect_cast, s)
       \<and> dynamic_indirect_cast_move E T result i s = (Inl bad_indirect_cast, s)"
  using assms
  by (simp add: dynamic_indirect_cast_copy_def dynamic_indirect_cast_move_def
        try_dynamic_cast_def dynamic_cast_def)

text \<open>
  The test: an \<^verbatim>\<open>indirect<base>\<close> that holds a \<^verbatim>\<open>derived\<close>, cast to \<^verbatim>\<open>derived_other\<close>;
  afterwards \<^verbatim>\<open>b1->get_value()\<close> is still \<open>42\<close>.
\<close>

theorem failed_dynamic_cast_leaves_source_witness:
  "vars base_42 2 = Some \<lparr>view = ''base'', m = \<lparr>ptr = Ptr 2 0, cb = Some 2\<rparr>\<rparr>
   \<and> block_at (heap base_42) 2 = Some \<lparr>conc = ''derived'', t = [42]\<rparr>
   \<and> try_static_cast test_env ''derived_other'' \<lparr>view = ''base'', m = \<lparr>ptr = Ptr 2 0, cb = Some 2\<rparr>\<rparr> = Inr ()
   \<and> ''derived_other'' \<noteq> ''base''
   \<and> \<not> is_base_of test_env ''derived_other'' ''base''
   \<and> ''derived_other'' \<noteq> ''derived''
   \<and> \<not> is_base_of test_env ''derived_other'' ''derived''
   \<and> dynamic_indirect_cast_copy test_env ''derived_other'' 3 2 base_42 = (Inl bad_indirect_cast, base_42)
   \<and> dynamic_indirect_cast_move test_env ''derived_other'' 3 2 base_42 = (Inl bad_indirect_cast, base_42)
   \<and> get_member 2 0 base_42 = Inr 42"
proof -
  have h1: "vars base_42 2 = Some \<lparr>view = ''base'', m = \<lparr>ptr = Ptr 2 0, cb = Some 2\<rparr>\<rparr>"
    by code_simp
  have h2: "ptr (m \<lparr>view = ''base'', m = \<lparr>ptr = Ptr 2 0, cb = Some 2\<rparr>\<rparr>) = Ptr 2 0" by simp
  have h3: "block_at (heap base_42) 2 = Some \<lparr>conc = ''derived'', t = [42]\<rparr>" by code_simp
  have h4: "try_static_cast test_env ''derived_other''
      \<lparr>view = ''base'', m = \<lparr>ptr = Ptr 2 0, cb = Some 2\<rparr>\<rparr> = Inr ()" by code_simp
  have h5: "''derived_other'' \<noteq> conc \<lparr>conc = ''derived'', t = [42]\<rparr>" by simp
  have h6: "\<not> is_base_of test_env ''derived_other'' (conc \<lparr>conc = ''derived'', t = [42]\<rparr>)"
    by code_simp
  have h7: "get_member 2 0 base_42 = Inr 42" by code_simp
  have v1: "''derived_other'' \<noteq> view \<lparr>view = ''base'', m = \<lparr>ptr = Ptr 2 0, cb = Some 2\<rparr>\<rparr>"
    by simp
  have v2: "\<not> is_base_of test_env ''derived_other''
      (view \<lparr>view = ''base'', m = \<lparr>ptr = Ptr 2 0, cb = Some 2\<rparr>\<rparr>)" by code_simp
  from failed_dynamic_cast_leaves_source [OF h1 h2 h3 h4 v1 v2 h5 h6, of 3]
    h1 h3 h4 v1 v2 h5 h6 h7
  show ?thesis by simp
qed

section \<open>Copies keep the class of the stored object\<close>

text \<open>
  Claim C4. A wrapper with view \<open>B\<close> holds an object of class \<open>conc b\<close>. Copy construction,
  construction of an \<^verbatim>\<open>indirect<T>\<close> from it for a base \<open>T\<close> of \<open>B\<close>, and copy assignment to
  another wrapper each give a wrapper whose block is of the same class \<open>conc b\<close> and stores
  what the copy constructor of that class made of the source's value: never a value of
  the view class.
\<close>

theorem copy_keeps_concrete_class:
  assumes src: "holds s other B a b" and cp: "copy_ctor E (conc b) (t b) = Inr v"
  shows "fst (indirect_copy E B this other s) = Inr ()
       \<and> deref this (snd (indirect_copy E B this other s)) = Inr \<lparr>conc = conc b, t = v\<rparr>
       \<and> (is_base_of E T B \<longrightarrow>
            fst (indirect_conv_copy E T this other s) = Inr ()
          \<and> deref this (snd (indirect_conv_copy E T this other s)) = Inr \<lparr>conc = conc b, t = v\<rparr>)
       \<and> (holds s tgt B a0 b0 \<longrightarrow>
            fst (copy_assign E tgt other s) = Inr ()
          \<and> deref tgt (snd (copy_assign E tgt other s)) = Inr \<lparr>conc = conc b, t = v\<rparr>)"
proof (intro conjI impI)
  show "fst (indirect_copy E B this other s) = Inr ()"
    by (simp add: indirect_copy_unfold [OF src] init_m_copy_holds(1) [OF src cp])
  show "deref this (snd (indirect_copy E B this other s)) = Inr \<lparr>conc = conc b, t = v\<rparr>"
    by (simp add: indirect_copy_unfold [OF src] deref_holds [OF init_m_copy_holds(2) [OF src cp]])
next
  assume g: "is_base_of E T B"
  show "fst (indirect_conv_copy E T this other s) = Inr ()"
    by (simp add: indirect_conv_copy_unfold [OF src g] init_m_copy_holds(1) [OF src cp])
  show "deref this (snd (indirect_conv_copy E T this other s)) = Inr \<lparr>conc = conc b, t = v\<rparr>"
    by (simp add: indirect_conv_copy_unfold [OF src g]
          deref_holds [OF init_m_copy_holds(2) [OF src cp]])
next
  assume tg: "holds s tgt B a0 b0"
  show "fst (copy_assign E tgt other s) = Inr ()"
    by (simp add: copy_assign_unfold [OF tg src] assign_m_copy_holds(1) [OF tg src cp])
  show "deref tgt (snd (copy_assign E tgt other s)) = Inr \<lparr>conc = conc b, t = v\<rparr>"
    by (simp add: copy_assign_unfold [OF tg src]
          deref_holds [OF assign_m_copy_holds(2) [OF tg src cp]])
qed

text \<open>
  Two \<^verbatim>\<open>indirect<base>\<close> that hold \<^verbatim>\<open>derived\<close> objects: every copy of the first holds a
  \<^verbatim>\<open>derived\<close> with value \<open>42\<close>.
\<close>

theorem copy_keeps_concrete_class_witness:
  "holds two_bases 2 ''base'' 2 \<lparr>conc = ''derived'', t = [42]\<rparr>
   \<and> copy_ctor test_env ''derived'' [42] = Inr [42]
   \<and> is_base_of test_env ''base'' ''base''
   \<and> holds two_bases 4 ''base'' 4 \<lparr>conc = ''derived'', t = [0]\<rparr>
   \<and> deref 5 (snd (indirect_copy test_env ''base'' 5 2 two_bases)) = Inr \<lparr>conc = ''derived'', t = [42]\<rparr>
   \<and> deref 5 (snd (indirect_conv_copy test_env ''base'' 5 2 two_bases)) = Inr \<lparr>conc = ''derived'', t = [42]\<rparr>
   \<and> deref 4 (snd (copy_assign test_env 4 2 two_bases)) = Inr \<lparr>conc = ''derived'', t = [42]\<rparr>"
proof -
  have h1: "holds two_bases 2 ''base'' 2 \<lparr>conc = ''derived'', t = [42]\<rparr>" by code_simp
  have h2: "copy_ctor test_env (conc \<lparr>conc = ''derived'', t = [42]\<rparr>) (t \<lparr>conc = ''derived'', t = [42]\<rparr>)
     = Inr [42]" by code_simp
  have h3: "is_base_of test_env ''base'' ''base''" by code_simp
  have h4: "holds two_bases 4 ''base'' 4 \<lparr>conc = ''derived'', t = [0]\<rparr>" by code_simp
  from copy_keeps_concrete_class [OF h1 h2, where this = 5 and T = "''base''" and tgt = 4 and ?a0.0 = 4
      and ?b0.0 = "\<lparr>conc = ''derived'', t = [0]\<rparr>"]
    h1 h2 h3 h4
  show ?thesis by simp
qed

section \<open>Moving from a wrapper\<close>

text \<open>
  Claim C2, as the code has it. Move construction and move assignment from a wrapper
  \<open>other\<close> succeed when the move constructor of the stored class does. The new or assigned
  wrapper owns a block allocated by the call, at an address different from that of
  \<open>other\<close>'s block, which stores the value the move constructor made. \<open>other\<close> keeps its block
  at its address, storing what the move constructor left there; its view pointer is not
  null and dereferencing it yields that value.
\<close>

theorem move_makes_new_block:
  assumes src: "holds s other T a b" and mv: "move_ctor E (conc b) (t b) = (Inr v, r)"
    and ne: "this \<noteq> other"
  shows "fst (indirect_move E T this other s) = Inr ()
       \<and> holds (snd (indirect_move E T this other s)) this T (Suc (length (heap s)))
            \<lparr>conc = conc b, t = v\<rparr>
       \<and> Suc (length (heap s)) \<noteq> a
       \<and> holds (snd (indirect_move E T this other s)) other T a (b\<lparr>t := r\<rparr>)
       \<and> arrow other (snd (indirect_move E T this other s)) = Inr (Ptr a 0)
       \<and> deref other (snd (indirect_move E T this other s)) = Inr (b\<lparr>t := r\<rparr>)
       \<and> (holds s tgt T a0 b0 \<and> tgt \<noteq> other \<and> a0 \<noteq> a \<longrightarrow>
            fst (move_assign E tgt other s) = Inr ()
          \<and> holds (snd (move_assign E tgt other s)) tgt T (Suc (length (heap s)))
               \<lparr>conc = conc b, t = v\<rparr>
          \<and> holds (snd (move_assign E tgt other s)) other T a (b\<lparr>t := r\<rparr>)
          \<and> arrow other (snd (move_assign E tgt other s)) = Inr (Ptr a 0)
          \<and> deref other (snd (move_assign E tgt other s)) = Inr (b\<lparr>t := r\<rparr>))"
proof -
  note u = indirect_move_unfold [OF src, where E = E and this = this]
  note c = init_m_move_holds [OF src mv]
  have ctor: "fst (indirect_move E T this other s) = Inr ()"
    "holds (snd (indirect_move E T this other s)) this T (Suc (length (heap s))) \<lparr>conc = conc b, t = v\<rparr>"
    "Suc (length (heap s)) \<noteq> a"
    "holds (snd (indirect_move E T this other s)) other T a (b\<lparr>t := r\<rparr>)"
    using c ne by (simp_all add: u)
  have asg: "fst (move_assign E tgt other s) = Inr ()
          \<and> holds (snd (move_assign E tgt other s)) tgt T (Suc (length (heap s)))
               \<lparr>conc = conc b, t = v\<rparr>
          \<and> holds (snd (move_assign E tgt other s)) other T a (b\<lparr>t := r\<rparr>)
          \<and> arrow other (snd (move_assign E tgt other s)) = Inr (Ptr a 0)
          \<and> deref other (snd (move_assign E tgt other s)) = Inr (b\<lparr>t := r\<rparr>)"
    if tg: "holds s tgt T a0 b0" and n: "tgt \<noteq> other" and d: "a0 \<noteq> a"
  proof -
    note ua = move_assign_unfold [OF tg src, where E = E]
    note ca = assign_m_move_holds [OF tg src mv]
    have o: "holds (snd (move_assign E tgt other s)) other T a (b\<lparr>t := r\<rparr>)"
      using ca(4) [OF n d] by (simp add: ua)
    show ?thesis
      using ca(1,2) o arrow_holds [OF o] deref_holds [OF o] by (simp add: ua)
  qed
  show ?thesis
    using ctor arrow_holds [OF ctor(4)] deref_holds [OF ctor(4)] asg by blast
qed

text \<open>
  The tests: after \<^verbatim>\<open>indirect<derived> d2{std::move(d1)}\<close> and after \<^verbatim>\<open>d2 = std::move(d1)\<close>
  the target reads \<open>42\<close> and \<^verbatim>\<open>d1->get_value()\<close> is \<open>0\<close>.
\<close>

theorem move_makes_new_block_witness:
  "holds two_derived 1 ''derived'' 1 \<lparr>conc = ''derived'', t = [42]\<rparr>
   \<and> move_ctor test_env ''derived'' [42] = (Inr [42], [0])
   \<and> holds two_derived 2 ''derived'' 2 \<lparr>conc = ''derived'', t = [0]\<rparr>
   \<and> holds (snd (indirect_move test_env ''derived'' 3 1 two_derived)) 3 ''derived'' 3
        \<lparr>conc = ''derived'', t = [42]\<rparr>
   \<and> deref 1 (snd (indirect_move test_env ''derived'' 3 1 two_derived))
        = Inr \<lparr>conc = ''derived'', t = [0]\<rparr>
   \<and> holds (snd (move_assign test_env 2 1 two_derived)) 2 ''derived'' 3
        \<lparr>conc = ''derived'', t = [42]\<rparr>
   \<and> deref 1 (snd (move_assign test_env 2 1 two_derived)) = Inr \<lparr>conc = ''derived'', t = [0]\<rparr>"
proof -
  have h1: "holds two_derived 1 ''derived'' 1 \<lparr>conc = ''derived'', t = [42]\<rparr>" by code_simp
  have h2: "move_ctor test_env (conc \<lparr>conc = ''derived'', t = [42]\<rparr>)
     (t \<lparr>conc = ''derived'', t = [42]\<rparr>) = (Inr [42], [0])" by code_simp
  have h3: "holds two_derived 2 ''derived'' 2 \<lparr>conc = ''derived'', t = [0]\<rparr>" by code_simp
  have l: "length (heap two_derived) = 2" by code_simp
  have n3: "(3::nat) \<noteq> 1" by simp
  from move_makes_new_block [OF h1 h2 n3, where tgt = 2 and ?a0.0 = 2
      and ?b0.0 = "\<lparr>conc = ''derived'', t = [0]\<rparr>"] h1 h2 h3 l
  show ?thesis by (simp add: numeral_3_eq_3)
qed

text \<open>
  Against claim C2 as stated: the target's block is not the source's block, the heap has
  grown by one block, and the source is not empty.
\<close>

theorem move_counterexample:
  "block_of 1 derived_42 = Some 1
   \<and> block_of 2 (snd (indirect_move test_env ''derived'' 2 1 derived_42)) = Some 2
   \<and> block_of 2 (snd (indirect_move test_env ''derived'' 2 1 derived_42)) \<noteq> block_of 1 derived_42
   \<and> arrow 1 (snd (indirect_move test_env ''derived'' 2 1 derived_42)) \<noteq> Inr nullptr
   \<and> length (heap derived_42) = 1
   \<and> length (heap (snd (indirect_move test_env ''derived'' 2 1 derived_42))) = 2
   \<and> arrow 1 (snd (indirect_move test_env ''derived'' 2 1 derived_42)) = Inr (Ptr 1 0)
   \<and> deref 1 (snd (indirect_move test_env ''derived'' 2 1 derived_42))
        = Inr \<lparr>conc = ''derived'', t = [0]\<rparr>
   \<and> block_of 1 two_derived = Some 1
   \<and> block_of 2 (snd (move_assign test_env 2 1 two_derived)) = Some 3
   \<and> arrow 1 (snd (move_assign test_env 2 1 two_derived)) = Inr (Ptr 1 0)
   \<and> deref 1 (snd (move_assign test_env 2 1 two_derived)) = Inr \<lparr>conc = ''derived'', t = [0]\<rparr>"
  by code_simp

section \<open>Assigning a wrapper to itself\<close>

text \<open>
  Claim C5, as the code has it. Move assigning a non-empty wrapper to itself succeeds when
  the move constructor of the stored class does, and leaves the wrapper holding a value: it
  owns a newly allocated block that stores what the move constructor made of the old value,
  its view pointer is the start of that value, dereferencing it yields that value, and the
  block it owned before is released.
\<close>

theorem self_move_assign_keeps_value:
  assumes h: "holds s this T a b" and mv: "move_ctor E (conc b) (t b) = (Inr v, r)"
  shows "fst (move_assign E this this s) = Inr ()
       \<and> holds (snd (move_assign E this this s)) this T (Suc (length (heap s)))
            \<lparr>conc = conc b, t = v\<rparr>
       \<and> block_at (heap (snd (move_assign E this this s))) a = None
       \<and> arrow this (snd (move_assign E this this s)) = Inr (Ptr (Suc (length (heap s))) 0)
       \<and> deref this (snd (move_assign E this this s)) = Inr \<lparr>conc = conc b, t = v\<rparr>"
proof -
  note u = move_assign_unfold [OF h h, where E = E]
  note c = assign_m_move_holds [OF h h mv]
  have n: "holds (snd (move_assign E this this s)) this T (Suc (length (heap s)))
            \<lparr>conc = conc b, t = v\<rparr>"
    using c(2) by (simp add: u)
  show ?thesis
    using c(1,3) n arrow_holds [OF n] deref_holds [OF n] by (simp add: u)
qed

text \<open>\<^verbatim>\<open>d1 = std::move(d1)\<close> on an \<^verbatim>\<open>indirect<derived>\<close> that holds \<open>42\<close>.\<close>

theorem self_move_assign_keeps_value_witness:
  "holds derived_42 1 ''derived'' 1 \<lparr>conc = ''derived'', t = [42]\<rparr>
   \<and> move_ctor test_env ''derived'' [42] = (Inr [42], [0])
   \<and> fst (move_assign test_env 1 1 derived_42) = Inr ()
   \<and> holds (snd (move_assign test_env 1 1 derived_42)) 1 ''derived'' 2
        \<lparr>conc = ''derived'', t = [42]\<rparr>
   \<and> block_at (heap (snd (move_assign test_env 1 1 derived_42))) 1 = None
   \<and> deref 1 (snd (move_assign test_env 1 1 derived_42)) = Inr \<lparr>conc = ''derived'', t = [42]\<rparr>"
proof -
  have h1: "holds derived_42 1 ''derived'' 1 \<lparr>conc = ''derived'', t = [42]\<rparr>" by code_simp
  have h2: "move_ctor test_env (conc \<lparr>conc = ''derived'', t = [42]\<rparr>)
     (t \<lparr>conc = ''derived'', t = [42]\<rparr>) = (Inr [42], [0])" by code_simp
  have l: "length (heap derived_42) = 1" by code_simp
  from self_move_assign_keeps_value [OF h1 h2] h1 h2 l
  show ?thesis by (simp add: numeral_2_eq_2)
qed

text \<open>
  Against claim C5 as stated: after the self move assignment the wrapper is not empty, its
  view pointer is not null and \<^verbatim>\<open>d1->get_value()\<close> is \<open>42\<close>.
\<close>

theorem self_move_assign_counterexample:
  "fst (move_assign test_env 1 1 derived_42) = Inr ()
   \<and> block_of 1 (snd (move_assign test_env 1 1 derived_42)) = Some 2
   \<and> arrow 1 (snd (move_assign test_env 1 1 derived_42)) = Inr (Ptr 2 0)
   \<and> arrow 1 (snd (move_assign test_env 1 1 derived_42)) \<noteq> Inr nullptr
   \<and> deref 1 (snd (move_assign test_env 1 1 derived_42)) = Inr \<lparr>conc = ''derived'', t = [42]\<rparr>
   \<and> get_member 1 0 (snd (move_assign test_env 1 1 derived_42)) = Inr 42"
  by code_simp

text \<open>
  Claim C6, as the code has it. Copy assigning a non-empty wrapper to itself clones its
  block first. If the copy constructor of the stored class throws, the state is unchanged.
  If it succeeds, the wrapper keeps its view class and holds the clone, an object of the
  same class whose value is what the copy constructor made of the old value; the clone lives
  in a newly allocated block at a different address, and the old block is released after
  the clone is complete.
\<close>

theorem self_copy_assign_reallocates:
  assumes h: "holds s this T a b"
  shows "(copy_ctor E (conc b) (t b) = Inl e \<longrightarrow> copy_assign E this this s = (Inl e, s))
       \<and> (copy_ctor E (conc b) (t b) = Inr v \<longrightarrow>
            fst (copy_assign E this this s) = Inr ()
          \<and> holds (snd (copy_assign E this this s)) this T (Suc (length (heap s)))
               \<lparr>conc = conc b, t = v\<rparr>
          \<and> Suc (length (heap s)) \<noteq> a
          \<and> block_at (heap (snd (copy_assign E this this s))) a = None
          \<and> deref this (snd (copy_assign E this this s)) = Inr \<lparr>conc = conc b, t = v\<rparr>)"
proof (intro conjI impI)
  note u = copy_assign_unfold [OF h h, where E = E]
  {
    assume f: "copy_ctor E (conc b) (t b) = Inl e"
    show "copy_assign E this this s = (Inl e, s)"
      by (simp add: u dcb_copy_throws [OF holdsD(2) [OF h] f] assign_m_def)
  }
  {
    assume cp: "copy_ctor E (conc b) (t b) = Inr v"
    note c = assign_m_copy_holds [OF h h cp]
    show "fst (copy_assign E this this s) = Inr ()" using c(1) by (simp add: u)
    show n: "holds (snd (copy_assign E this this s)) this T (Suc (length (heap s)))
               \<lparr>conc = conc b, t = v\<rparr>" using c(2) by (simp add: u)
    show "Suc (length (heap s)) \<noteq> a" by (rule c(5))
    show "block_at (heap (snd (copy_assign E this this s))) a = None" using c(3) by (simp add: u)
    show "deref this (snd (copy_assign E this this s)) = Inr \<lparr>conc = conc b, t = v\<rparr>"
      by (rule deref_holds [OF n])
  }
qed

text \<open>
  \<^verbatim>\<open>d1 = d1\<close> on an \<^verbatim>\<open>indirect<derived>\<close> that holds \<open>42\<close>, with a copy constructor that
  throws and with the one of the tests.
\<close>

theorem self_copy_assign_reallocates_witness:
  "holds derived_42 1 ''derived'' 1 \<lparr>conc = ''derived'', t = [42]\<rparr>
   \<and> copy_ctor throwing_env ''derived'' [42] = Inl (thrown 1)
   \<and> copy_assign throwing_env 1 1 derived_42 = (Inl (thrown 1), derived_42)
   \<and> copy_ctor test_env ''derived'' [42] = Inr [42]
   \<and> fst (copy_assign test_env 1 1 derived_42) = Inr ()
   \<and> holds (snd (copy_assign test_env 1 1 derived_42)) 1 ''derived'' 2
        \<lparr>conc = ''derived'', t = [42]\<rparr>
   \<and> block_at (heap (snd (copy_assign test_env 1 1 derived_42))) 1 = None"
proof -
  have h1: "holds derived_42 1 ''derived'' 1 \<lparr>conc = ''derived'', t = [42]\<rparr>" by code_simp
  have h2: "copy_ctor throwing_env (conc \<lparr>conc = ''derived'', t = [42]\<rparr>)
     (t \<lparr>conc = ''derived'', t = [42]\<rparr>) = Inl (thrown 1)" by code_simp
  have h3: "copy_ctor test_env (conc \<lparr>conc = ''derived'', t = [42]\<rparr>)
     (t \<lparr>conc = ''derived'', t = [42]\<rparr>) = Inr [42]" by code_simp
  have l: "length (heap derived_42) = 1" by code_simp
  from self_copy_assign_reallocates [OF h1, where E = throwing_env and e = "thrown 1"]
    self_copy_assign_reallocates [OF h1, where E = test_env and v = "[42]"] h1 h2 h3 l
  show ?thesis by (simp add: numeral_2_eq_2)
qed

text \<open>
  Against claim C6 as stated: the value is still \<open>42\<close>, but the address of the held object
  has changed.
\<close>

theorem self_copy_assign_counterexample:
  "arrow 1 derived_42 = Inr (Ptr 1 0)
   \<and> arrow 1 (snd (copy_assign test_env 1 1 derived_42)) = Inr (Ptr 2 0)
   \<and> arrow 1 (snd (copy_assign test_env 1 1 derived_42)) \<noteq> arrow 1 derived_42
   \<and> block_of 1 (snd (copy_assign test_env 1 1 derived_42)) \<noteq> block_of 1 derived_42
   \<and> get_member 1 0 (snd (copy_assign test_env 1 1 derived_42)) = Inr 42"
  by code_simp

section \<open>Copies are deep\<close>

lemma copies_isolated:
  assumes x: "holds s x T a b" and y: "holds s y U a' b'" and ne: "a \<noteq> a'"
  shows "get_member y j (snd (set_member x k v s)) = get_member y j s"
    and "arrow x s \<noteq> arrow y s"
  using get_member_holds [OF set_member_frame [OF x y ne]] get_member_holds [OF y]
    arrow_holds [OF x] arrow_holds [OF y] ne
  by simp_all

lemma set_member_seen:
  assumes x: "holds s x T a b" and k: "k < length (t b)"
  shows "get_member x k (snd (set_member x k v s)) = Inr v"
  using get_member_holds [OF set_member_self [OF x k]] k by simp

text \<open>
  Claim C7. Let the copy constructor of the stored class reproduce the value. Copy
  construction from a non-empty wrapper \<open>other\<close>, and copy assignment from it to another
  wrapper \<open>tgt\<close>, succeed; the copy holds an object equal to that of \<open>other\<close> (same class,
  same words, every member reads the same) at a different address; \<open>other\<close> is as before.
  A write through \<open>other\<close> is seen through \<open>other\<close> and not through the copy, and a write
  through the copy is not seen through \<open>other\<close>.
\<close>

theorem copy_is_deep:
  assumes src: "holds s other T a b" and cp: "copy_ctor E (conc b) (t b) = Inr (t b)"
    and ne: "this \<noteq> other"
  shows "fst (indirect_copy E T this other s) = Inr ()
       \<and> holds (snd (indirect_copy E T this other s)) this T (Suc (length (heap s))) b
       \<and> holds (snd (indirect_copy E T this other s)) other T a b
       \<and> arrow this (snd (indirect_copy E T this other s))
            \<noteq> arrow other (snd (indirect_copy E T this other s))
       \<and> get_member this j (snd (indirect_copy E T this other s)) = get_member other j s
       \<and> get_member other j (snd (indirect_copy E T this other s)) = get_member other j s
       \<and> get_member this j (snd (set_member other k x (snd (indirect_copy E T this other s))))
            = get_member this j (snd (indirect_copy E T this other s))
       \<and> get_member other j (snd (set_member this k x (snd (indirect_copy E T this other s))))
            = get_member other j (snd (indirect_copy E T this other s))
       \<and> (k < length (t b) \<longrightarrow>
            get_member other k (snd (set_member other k x (snd (indirect_copy E T this other s))))
              = Inr x)
       \<and> (holds s tgt T a0 b0 \<and> tgt \<noteq> other \<and> a0 \<noteq> a \<longrightarrow>
            fst (copy_assign E tgt other s) = Inr ()
          \<and> holds (snd (copy_assign E tgt other s)) tgt T (Suc (length (heap s))) b
          \<and> holds (snd (copy_assign E tgt other s)) other T a b
          \<and> arrow tgt (snd (copy_assign E tgt other s))
               \<noteq> arrow other (snd (copy_assign E tgt other s))
          \<and> get_member tgt j (snd (copy_assign E tgt other s)) = get_member other j s
          \<and> get_member other j (snd (copy_assign E tgt other s)) = get_member other j s
          \<and> get_member tgt j (snd (set_member other k x (snd (copy_assign E tgt other s))))
               = get_member tgt j (snd (copy_assign E tgt other s))
          \<and> get_member other j (snd (set_member tgt k x (snd (copy_assign E tgt other s))))
               = get_member other j (snd (copy_assign E tgt other s))
          \<and> (k < length (t b) \<longrightarrow>
               get_member other k (snd (set_member other k x (snd (copy_assign E tgt other s))))
                 = Inr x))"
proof -
  have bb: "\<lparr>conc = conc b, t = t b\<rparr> = b" by simp
  have obs: "fst r = Inr ()
       \<and> holds (snd r) w T (Suc (length (heap s))) b
       \<and> holds (snd r) other T a b
       \<and> arrow w (snd r) \<noteq> arrow other (snd r)
       \<and> get_member w j (snd r) = get_member other j s
       \<and> get_member other j (snd r) = get_member other j s
       \<and> get_member w j (snd (set_member other k x (snd r))) = get_member w j (snd r)
       \<and> get_member other j (snd (set_member w k x (snd r))) = get_member other j (snd r)
       \<and> (k < length (t b) \<longrightarrow> get_member other k (snd (set_member other k x (snd r))) = Inr x)"
    if r1: "fst r = Inr ()" and r2: "holds (snd r) w T (Suc (length (heap s))) b"
      and r3: "holds (snd r) other T a b" and r4: "Suc (length (heap s)) \<noteq> a"
    for r :: "(error + unit) \<times> state" and w
  proof -
    have r4': "a \<noteq> Suc (length (heap s))" using r4 by simp
    show ?thesis
      using r1 r2 r3 copies_isolated [OF r2 r3 r4] copies_isolated(1) [OF r3 r2 r4']
        set_member_seen [OF r3, of k x]
        get_member_holds [OF r2, of j] get_member_holds [OF r3, of j] get_member_holds [OF src, of j]
      by simp
  qed
  note u = indirect_copy_unfold [OF src, where E = E and this = this]
  note c = init_m_copy_holds [OF src cp]
  have ctor: "fst (indirect_copy E T this other s) = Inr ()"
    "holds (snd (indirect_copy E T this other s)) this T (Suc (length (heap s))) b"
    "holds (snd (indirect_copy E T this other s)) other T a b"
    using c(1) c(2) [where T = T and this = this] c(3) [OF ne] by (simp_all add: u bb)
  have asg: "fst (copy_assign E tgt other s) = Inr ()"
    "holds (snd (copy_assign E tgt other s)) tgt T (Suc (length (heap s))) b"
    "holds (snd (copy_assign E tgt other s)) other T a b"
    if tg: "holds s tgt T a0 b0" and n: "tgt \<noteq> other" and d: "a0 \<noteq> a"
    using assign_m_copy_holds(1,2) [OF tg src cp] assign_m_copy_holds(4) [OF tg src cp n d]
    by (simp_all add: copy_assign_unfold [OF tg src] bb)
  show ?thesis
    using obs [OF ctor c(4)] obs [OF asg c(4)] by blast
qed

text \<open>
  The test of the copies: after \<^verbatim>\<open>original->set_value(99)\<close> the original reads \<open>99\<close> and
  the copy still \<open>42\<close>.
\<close>

theorem copy_is_deep_witness:
  "holds two_derived 1 ''derived'' 1 \<lparr>conc = ''derived'', t = [42]\<rparr>
   \<and> copy_ctor test_env ''derived'' [42] = Inr [42]
   \<and> holds two_derived 2 ''derived'' 2 \<lparr>conc = ''derived'', t = [0]\<rparr>
   \<and> holds (snd (indirect_copy test_env ''derived'' 3 1 two_derived)) 3 ''derived'' 3
        \<lparr>conc = ''derived'', t = [42]\<rparr>
   \<and> get_member 3 0 (snd (indirect_copy test_env ''derived'' 3 1 two_derived)) = Inr 42
   \<and> get_member 1 0 (snd (set_member 1 0 99
        (snd (indirect_copy test_env ''derived'' 3 1 two_derived)))) = Inr 99
   \<and> get_member 3 0 (snd (set_member 1 0 99
        (snd (indirect_copy test_env ''derived'' 3 1 two_derived)))) = Inr 42
   \<and> holds (snd (copy_assign test_env 2 1 two_derived)) 2 ''derived'' 3
        \<lparr>conc = ''derived'', t = [42]\<rparr>
   \<and> get_member 1 0 (snd (set_member 1 0 99 (snd (copy_assign test_env 2 1 two_derived)))) = Inr 99
   \<and> get_member 2 0 (snd (set_member 1 0 99 (snd (copy_assign test_env 2 1 two_derived)))) = Inr 42"
proof -
  have h1: "holds two_derived 1 ''derived'' 1 \<lparr>conc = ''derived'', t = [42]\<rparr>" by code_simp
  have h2: "copy_ctor test_env (conc \<lparr>conc = ''derived'', t = [42]\<rparr>)
     (t \<lparr>conc = ''derived'', t = [42]\<rparr>) = Inr (t \<lparr>conc = ''derived'', t = [42]\<rparr>)" by code_simp
  have h3: "holds two_derived 2 ''derived'' 2 \<lparr>conc = ''derived'', t = [0]\<rparr>" by code_simp
  have l: "length (heap two_derived) = 2" by code_simp
  have g: "get_member 1 0 two_derived = Inr 42" by code_simp
  have n3: "(3::nat) \<noteq> 1" by simp
  from copy_is_deep [OF h1 h2 n3, where tgt = 2 and ?a0.0 = 2
      and ?b0.0 = "\<lparr>conc = ''derived'', t = [0]\<rparr>" and j = 0 and k = 0 and x = 99]
    h1 h2 h3 l g
  show ?thesis by (simp add: numeral_3_eq_3)
qed

section \<open>Copy assignment and exceptions\<close>

text \<open>
  Claim C8. When the copy constructor of the source's stored class throws, copy
  assignment propagates the exception and leaves the whole state as it was: the target
  still owns its original block with its original value. When it succeeds, the target owns
  the replacement block, whose address differs from that of the original block (it was
  allocated while the original was still allocated), and only then is the original block
  released.
\<close>

theorem copy_assign_strong_guarantee:
  assumes tg: "holds s this T a0 b0" and src: "holds s other T a b"
  shows "(copy_ctor E (conc b) (t b) = Inl e \<longrightarrow>
            copy_assign E this other s = (Inl e, s)
          \<and> holds (snd (copy_assign E this other s)) this T a0 b0)
       \<and> (copy_ctor E (conc b) (t b) = Inr v \<longrightarrow>
            fst (copy_assign E this other s) = Inr ()
          \<and> holds (snd (copy_assign E this other s)) this T (Suc (length (heap s)))
               \<lparr>conc = conc b, t = v\<rparr>
          \<and> Suc (length (heap s)) \<noteq> a0
          \<and> block_at (heap (snd (copy_assign E this other s))) a0 = None)"
proof (intro conjI impI)
  note u = copy_assign_unfold [OF tg src, where E = E]
  {
    assume f: "copy_ctor E (conc b) (t b) = Inl e"
    show r: "copy_assign E this other s = (Inl e, s)"
      by (simp add: u dcb_copy_throws [OF holdsD(2) [OF src] f] assign_m_def)
    show "holds (snd (copy_assign E this other s)) this T a0 b0"
      using tg by (simp add: r)
  }
  {
    assume cp: "copy_ctor E (conc b) (t b) = Inr v"
    note c = assign_m_copy_holds [OF tg src cp]
    show "fst (copy_assign E this other s) = Inr ()" using c(1) by (simp add: u)
    show "holds (snd (copy_assign E this other s)) this T (Suc (length (heap s)))
               \<lparr>conc = conc b, t = v\<rparr>" using c(2) by (simp add: u)
    show "Suc (length (heap s)) \<noteq> a0" by (rule c(5))
    show "block_at (heap (snd (copy_assign E this other s))) a0 = None" using c(3) by (simp add: u)
  }
qed

text \<open>\<^verbatim>\<open>d2 = d1\<close> with a copy constructor that throws, and with the one of the tests.\<close>

theorem copy_assign_strong_guarantee_witness:
  "holds two_derived 2 ''derived'' 2 \<lparr>conc = ''derived'', t = [0]\<rparr>
   \<and> holds two_derived 1 ''derived'' 1 \<lparr>conc = ''derived'', t = [42]\<rparr>
   \<and> copy_ctor throwing_env ''derived'' [42] = Inl (thrown 1)
   \<and> copy_assign throwing_env 2 1 two_derived = (Inl (thrown 1), two_derived)
   \<and> get_member 2 0 (snd (copy_assign throwing_env 2 1 two_derived)) = Inr 0
   \<and> copy_ctor test_env ''derived'' [42] = Inr [42]
   \<and> fst (copy_assign test_env 2 1 two_derived) = Inr ()
   \<and> holds (snd (copy_assign test_env 2 1 two_derived)) 2 ''derived'' 3
        \<lparr>conc = ''derived'', t = [42]\<rparr>
   \<and> block_at (heap (snd (copy_assign test_env 2 1 two_derived))) 2 = None"
proof -
  have h0: "holds two_derived 2 ''derived'' 2 \<lparr>conc = ''derived'', t = [0]\<rparr>" by code_simp
  have h1: "holds two_derived 1 ''derived'' 1 \<lparr>conc = ''derived'', t = [42]\<rparr>" by code_simp
  have h2: "copy_ctor throwing_env (conc \<lparr>conc = ''derived'', t = [42]\<rparr>)
     (t \<lparr>conc = ''derived'', t = [42]\<rparr>) = Inl (thrown 1)" by code_simp
  have h3: "copy_ctor test_env (conc \<lparr>conc = ''derived'', t = [42]\<rparr>)
     (t \<lparr>conc = ''derived'', t = [42]\<rparr>) = Inr [42]" by code_simp
  have l: "length (heap two_derived) = 2" by code_simp
  have g: "get_member 2 0 two_derived = Inr 0" by code_simp
  from copy_assign_strong_guarantee [OF h0 h1, where E = throwing_env and e = "thrown 1"]
    copy_assign_strong_guarantee [OF h0 h1, where E = test_env and v = "[42]"] h0 h1 h2 h3 l g
  show ?thesis by (simp add: numeral_3_eq_3)
qed

section \<open>swap\<close>

text \<open>
  Claim C9. For two wrappers of the same view class, the member \<^verbatim>\<open>swap\<close> and the free
  function \<^verbatim>\<open>swap\<close> succeed and exchange the members \<open>m\<close> of the two wrappers: each ends
  up with the block handle and the view pointer the other had, and reads what the other
  read. The heap is untouched: nothing is allocated and nothing released.
\<close>

theorem swap_exchanges:
  assumes x: "vars s x = Some w" and y: "vars s y = Some w'" and v: "view w' = view w"
  shows "indirect_swap x y s
           = (Inr (), s\<lparr>vars := (vars s)(x \<mapsto> w\<lparr>m := m w'\<rparr>, y \<mapsto> w'\<lparr>m := m w\<rparr>)\<rparr>)
       \<and> swap_free x y s = indirect_swap x y s
       \<and> heap (snd (indirect_swap x y s)) = heap s
       \<and> block_of x (snd (indirect_swap x y s)) = block_of y s
       \<and> block_of y (snd (indirect_swap x y s)) = block_of x s
       \<and> arrow x (snd (indirect_swap x y s)) = arrow y s
       \<and> arrow y (snd (indirect_swap x y s)) = arrow x s
       \<and> deref x (snd (indirect_swap x y s)) = deref y s
       \<and> deref y (snd (indirect_swap x y s)) = deref x s
       \<and> get_member x k (snd (indirect_swap x y s)) = get_member y k s
       \<and> get_member y k (snd (indirect_swap x y s)) = get_member x k s"
proof -
  have r: "indirect_swap x y s
           = (Inr (), s\<lparr>vars := (vars s)(x \<mapsto> w\<lparr>m := m w'\<rparr>, y \<mapsto> w'\<lparr>m := m w\<rparr>)\<rparr>)"
    using x y v by (simp add: indirect_swap_def swap_vars [OF x y])
  have hs: "heap (snd (indirect_swap x y s)) = heap s" by (simp add: r)
  have vy: "vars (snd (indirect_swap x y s)) y = Some (w'\<lparr>m := m w\<rparr>)" by (simp add: r)
  have vx: "vars (snd (indirect_swap x y s)) x = Some (w\<lparr>m := m w'\<rparr>)"
  proof (cases "x = y")
    case True
    with x y have "w' = w" by simp
    with True vy show ?thesis by simp
  next
    case False
    then show ?thesis by (simp add: r)
  qed
  have "block_of x (snd (indirect_swap x y s)) = block_of y s"
    "block_of y (snd (indirect_swap x y s)) = block_of x s"
    "arrow x (snd (indirect_swap x y s)) = arrow y s"
    "arrow y (snd (indirect_swap x y s)) = arrow x s"
    "deref x (snd (indirect_swap x y s)) = deref y s"
    "deref y (snd (indirect_swap x y s)) = deref x s"
    "get_member x k (snd (indirect_swap x y s)) = get_member y k s"
    "get_member y k (snd (indirect_swap x y s)) = get_member x k s"
    by (simp_all add: block_of_def arrow_def deref_def get_member_def hs vx vy x y
          cong: pointer.case_cong)
  with r hs show ?thesis by (simp add: swap_free_def)
qed

text \<open>Swapping the two wrappers of \<open>two_derived\<close>.\<close>

theorem swap_exchanges_witness:
  "vars two_derived 1 = Some \<lparr>view = ''derived'', m = \<lparr>ptr = Ptr 1 0, cb = Some 1\<rparr>\<rparr>
   \<and> vars two_derived 2 = Some \<lparr>view = ''derived'', m = \<lparr>ptr = Ptr 2 0, cb = Some 2\<rparr>\<rparr>
   \<and> fst (indirect_swap 1 2 two_derived) = Inr ()
   \<and> heap (snd (indirect_swap 1 2 two_derived)) = heap two_derived
   \<and> block_of 1 (snd (indirect_swap 1 2 two_derived)) = Some 2
   \<and> block_of 2 (snd (indirect_swap 1 2 two_derived)) = Some 1
   \<and> get_member 1 0 (snd (indirect_swap 1 2 two_derived)) = Inr 0
   \<and> get_member 2 0 (snd (indirect_swap 1 2 two_derived)) = Inr 42"
proof -
  have h1: "vars two_derived 1 = Some \<lparr>view = ''derived'', m = \<lparr>ptr = Ptr 1 0, cb = Some 1\<rparr>\<rparr>"
    by code_simp
  have h2: "vars two_derived 2 = Some \<lparr>view = ''derived'', m = \<lparr>ptr = Ptr 2 0, cb = Some 2\<rparr>\<rparr>"
    by code_simp
  have h3: "view \<lparr>view = ''derived'', m = \<lparr>ptr = Ptr 2 0, cb = Some 2\<rparr>\<rparr>
      = view \<lparr>view = ''derived'', m = \<lparr>ptr = Ptr 1 0, cb = Some 1\<rparr>\<rparr>" by simp
  have g: "block_of 1 two_derived = Some 1" "block_of 2 two_derived = Some 2"
    "get_member 1 0 two_derived = Inr 42" "get_member 2 0 two_derived = Inr 0" by code_simp+
  note sw = swap_exchanges [OF h1 h2 h3, where k = 0]
  from sw [THEN conjunct1] have f: "fst (indirect_swap 1 2 two_derived) = Inr ()" by simp
  from sw [THEN conjunct2] f h1 h2 g show ?thesis by simp
qed

end
